theory Spec2Isabelle
  imports Main "HOL-Library.Word"
begin

section \<open>Errors thrown by the runtime\<close>

text \<open>
  A thrown JavaScript error. File-system errors carry a \<open>code\<close> property
  (\<open>ENOENT\<close>, \<open>EACCES\<close>, ...); the \<open>SyntaxError\<close> of \<open>JSON.parse\<close> and the
  \<open>RangeError\<close> of an argument check carry none.
\<close>

datatype js_error = FsError string | SyntaxError | RangeError

fun code :: "js_error \<Rightarrow> string option" where
  "code (FsError c) = Some c"
| "code SyntaxError = None"
| "code RangeError = None"

section \<open>The document store: one JSON array per backing file\<close>

text \<open>
  What \<open>fs.readFileSync\<close> finds at the path of a store: either the read fails with an
  error code (a missing file is the code \<open>ENOENT\<close>), or it yields the file's text. The
  text is kept abstract: it either is the JSON serialisation of a list of documents
  (\<open>JSON.parse\<close> of what \<open>JSON.stringify\<close> wrote gives the documents back), or it is
  not JSON at all.
\<close>

datatype 'a content = Garbled | Json "'a list"

datatype 'a backing_file = Failing string | Data "'a content"

datatype io_event = Load | Save

text \<open>
  The state of one store: its backing file and the log of the reads and writes
  performed on it so far.
\<close>

record 'a store =
  backing :: "'a backing_file"
  trace :: "io_event list"

fun readFileSync :: "'a backing_file \<Rightarrow> js_error + 'a content" where
  "readFileSync (Failing c) = Inl (FsError c)"
| "readFileSync (Data d) = Inr d"

fun JSON_parse :: "'a content \<Rightarrow> js_error + 'a list" where
  "JSON_parse Garbled = Inl SyntaxError"
| "JSON_parse (Json ds) = Inr ds"

text \<open>
  The \<open>catch\<close> block shared by the four loaders:
  \<^verbatim>\<open>if (err.code === 'ENOENT') { return []; } throw err;\<close>
\<close>

definition on_load_error :: "js_error \<Rightarrow> js_error + 'a list" where
  "on_load_error err = (if code err = Some ''ENOENT'' then Inr [] else Inl err)"

text \<open>
  The body of \<open>getAllTracks\<close>, \<open>getAllPlaylists\<close>, \<open>getAllUsers\<close> and \<open>getBlocklist\<close>
  (the four are the same code on four files): read, parse, and catch errors of both.
\<close>

definition loadAll :: "'a store \<Rightarrow> (js_error + 'a list) \<times> 'a store" where
  "loadAll st =
     ((case readFileSync (backing st) of
         Inl err \<Rightarrow> on_load_error err
       | Inr data \<Rightarrow>
           (case JSON_parse data of
              Inl err \<Rightarrow> on_load_error err
            | Inr ds \<Rightarrow> Inr ds)),
      st\<lparr>trace := trace st @ [Load]\<rparr>)"

text \<open>
  \<open>fs.writeFileSync(FILE, JSON.stringify(docs, null, 2))\<close>: the file now holds the
  serialisation of the documents. The write itself is taken to succeed.
\<close>

definition saveAll :: "'a list \<Rightarrow> 'a store \<Rightarrow> 'a store" where
  "saveAll ds st = st\<lparr>backing := Data (Json ds), trace := trace st @ [Save]\<rparr>"

subsection \<open>Documents\<close>

record track =
  track_id :: string
  trackName :: string
  artist :: string
  album :: "string option"
  releaseDate :: "string option"
  durationMs :: "int option"
  sourceUrl :: "string option"
  filePath :: "string option"
  track_createdAt :: string

record playlist =
  playlist_id :: string
  userId :: string
  name :: string
  trackIds :: "string list"
  createdAt :: string
  updatedAt :: string

record user =
  user_id :: string
  username :: string
  passwordHash :: string
  user_createdAt :: string

record blocklist_entry =
  tokenId :: string
  expiresAt :: int
  blockedAt :: int

definition getAllTracks :: "track store \<Rightarrow> (js_error + track list) \<times> track store" where
  "getAllTracks = loadAll"

definition saveAllTracks :: "track list \<Rightarrow> track store \<Rightarrow> track store" where
  "saveAllTracks = saveAll"

definition getAllPlaylists :: "playlist store \<Rightarrow> (js_error + playlist list) \<times> playlist store" where
  "getAllPlaylists = loadAll"

definition saveAllPlaylists :: "playlist list \<Rightarrow> playlist store \<Rightarrow> playlist store" where
  "saveAllPlaylists = saveAll"

definition getAllUsers :: "user store \<Rightarrow> (js_error + user list) \<times> user store" where
  "getAllUsers = loadAll"

definition getBlocklist ::
  "blocklist_entry store \<Rightarrow> (js_error + blocklist_entry list) \<times> blocklist_entry store" where
  "getBlocklist = loadAll"

definition saveBlocklist :: "blocklist_entry list \<Rightarrow> blocklist_entry store \<Rightarrow> blocklist_entry store" where
  "saveBlocklist = saveAll"

section \<open>Strings\<close>

text \<open>
  A string is its list of characters. \<open>String.prototype.toLowerCase\<close> is a function of
  the runtime: the operations that compare or search text take it as their parameter
  \<open>toLowerCase\<close>.
\<close>

fun starts_with :: "string \<Rightarrow> string \<Rightarrow> bool" where
  "starts_with [] s = True"
| "starts_with (p # ps) [] = False"
| "starts_with (p # ps) (c # cs) = (p = c \<and> starts_with ps cs)"

text \<open>\<open>hay.includes(needle)\<close>: the needle occurs somewhere in the string.\<close>

fun str_includes :: "string \<Rightarrow> string \<Rightarrow> bool" where
  "str_includes [] needle = (needle = [])"
| "str_includes (c # cs) needle = (starts_with needle (c # cs) \<or> str_includes cs needle)"

section \<open>The track repository\<close>



text \<open>
  The callback of the duplicate lookups:
  \<^verbatim>\<open>track.artist.toLowerCase() === artist.toLowerCase() &&
track.trackName.toLowerCase() === trackName.toLowerCase()\<close>
\<close>

definition same_key :: "(string \<Rightarrow> string) \<Rightarrow> string \<Rightarrow> string \<Rightarrow> track \<Rightarrow> bool" where
  "same_key toLowerCase a n t =
     (toLowerCase (artist t) = toLowerCase a \<and> toLowerCase (trackName t) = toLowerCase n)"

definition findByArtistAndName ::
  "(string \<Rightarrow> string) \<Rightarrow> string \<Rightarrow> string \<Rightarrow> track store \<Rightarrow> (js_error + track option) \<times> track store" where
  "findByArtistAndName toLowerCase a n st =
     (case getAllTracks st of
        (Inl err, st1) \<Rightarrow> (Inl err, st1)
      | (Inr tracks, st1) \<Rightarrow> (Inr (find (same_key toLowerCase a n) tracks), st1))"

definition track_addTrack ::
  "(string \<Rightarrow> string) \<Rightarrow> track \<Rightarrow> track store \<Rightarrow> (js_error + track) \<times> track store" where
  "track_addTrack toLowerCase tr st =
     (case findByArtistAndName toLowerCase (artist tr) (trackName tr) st of
        (Inl err, st1) \<Rightarrow> (Inl err, st1)
      | (Inr (Some existing), st1) \<Rightarrow> (Inr existing, st1)
      | (Inr None, st1) \<Rightarrow>
          (case getAllTracks st1 of
             (Inl err, st2) \<Rightarrow> (Inl err, st2)
           | (Inr tracks, st2) \<Rightarrow> (Inr tr, saveAllTracks (tracks @ [tr]) st2)))"



section \<open>Pagination\<close>

text \<open>
  Page numbers and limits are integers here (the routes obtain them from
  \<open>parsePaginationParams\<close>, which yields integers of at least 1).
  \<open>ceil_div total limit\<close> is \<open>Math.ceil(total / limit)\<close> for a limit other than 0.
\<close>

definition ceil_div :: "int \<Rightarrow> int \<Rightarrow> int" where
  "ceil_div a b = - ((- a) div b)"

text \<open>\<open>Array.prototype.slice(start, end)\<close>, negative indices counting from the end.\<close>

definition js_slice :: "'a list \<Rightarrow> int \<Rightarrow> int \<Rightarrow> 'a list" where
  "js_slice xs s e =
     (let n = int (length xs);
          k = (if s < 0 then max (n + s) 0 else min s n);
          f = (if e < 0 then max (n + e) 0 else min e n)
      in take (nat (f - k)) (drop (nat k) xs))"

record 'a page_result =
  data :: "'a list"
  page :: int
  limit :: int
  total :: int
  totalPages :: int
  hasNext :: bool
  hasPrev :: bool

definition paginate :: "'a list \<Rightarrow> int \<Rightarrow> int \<Rightarrow> 'a page_result" where
  "paginate items pg lim =
     (let tot = int (length items);
          tps = (if ceil_div tot lim = 0 then 1 else ceil_div tot lim);
          safePage = max 1 (min pg tps);
          startIndex = (safePage - 1) * lim;
          endIndex = startIndex + lim
      in \<lparr>data = js_slice items startIndex endIndex, page = safePage, limit = lim,
          total = tot, totalPages = tps,
          hasNext = (safePage < tps), hasPrev = (safePage > 1)\<rparr>)"

text \<open>
  The track listing. \<open>search\<close> is the query (the empty string when absent),
  \<open>newest\<close> says whether \<open>sort === 'newest'\<close>; \<open>getTime\<close> is
  \<open>new Date(s).getTime()\<close>, and the sort is stable.
\<close>

definition getAll ::
  "(string \<Rightarrow> string) \<Rightarrow> (string \<Rightarrow> int) \<Rightarrow> int \<Rightarrow> int \<Rightarrow> string \<Rightarrow> bool \<Rightarrow> track store
     \<Rightarrow> (js_error + track page_result) \<times> track store" where
  "getAll toLowerCase getTime pg lim search newest st =
     (case getAllTracks st of
        (Inl err, st1) \<Rightarrow> (Inl err, st1)
      | (Inr tracks0, st1) \<Rightarrow>
          (let tracks1 =
                 (if search \<noteq> [] then
                    filter (\<lambda>t. str_includes (toLowerCase (trackName t)) (toLowerCase search)
                             \<or> str_includes (toLowerCase (artist t)) (toLowerCase search)
                             \<or> (case album t of None \<Rightarrow> False
                                 | Some a \<Rightarrow> a \<noteq> [] \<and> str_includes (toLowerCase a) (toLowerCase search)))
                           tracks0
                  else tracks0);
               tracks = (if newest then sort_key (\<lambda>t. - getTime (track_createdAt t)) tracks1
                         else tracks1);
               tot = int (length tracks);
               tps = ceil_div tot lim;
               startIndex = (pg - 1) * lim;
               endIndex = startIndex + lim
           in (Inr \<lparr>data = js_slice tracks startIndex endIndex, page = pg, limit = lim,
                    total = tot, totalPages = tps,
                    hasNext = (pg < tps), hasPrev = (pg > 1)\<rparr>, st1)))"

section \<open>The playlist repository\<close>

text \<open>\<open>Array.prototype.findIndex\<close>: the first index whose element satisfies \<open>P\<close>, or -1.\<close>

fun findIndex :: "('a \<Rightarrow> bool) \<Rightarrow> 'a list \<Rightarrow> int" where
  "findIndex P [] = - 1"
| "findIndex P (x # xs) =
     (if P x then 0 else (let i = findIndex P xs in if i = - 1 then - 1 else i + 1))"

definition owned :: "string \<Rightarrow> string \<Rightarrow> playlist \<Rightarrow> bool" where
  "owned pid uid p = (playlist_id p = pid \<and> userId p = uid)"

definition playlist_findById ::
  "string \<Rightarrow> playlist store \<Rightarrow> (js_error + playlist option) \<times> playlist store" where
  "playlist_findById i st =
     (case getAllPlaylists st of
        (Inl err, st1) \<Rightarrow> (Inl err, st1)
      | (Inr playlists, st1) \<Rightarrow> (Inr (find (\<lambda>p. playlist_id p = i) playlists), st1))"

definition getByUserId ::
  "string \<Rightarrow> int \<Rightarrow> int \<Rightarrow> playlist store \<Rightarrow> (js_error + playlist page_result) \<times> playlist store" where
  "getByUserId uid pg lim st =
     (case getAllPlaylists st of
        (Inl err, st1) \<Rightarrow> (Inl err, st1)
      | (Inr all_playlists, st1) \<Rightarrow>
          (let playlists = filter (\<lambda>p. userId p = uid) all_playlists;
               tot = int (length playlists);
               tps = ceil_div tot lim;
               startIndex = (pg - 1) * lim;
               endIndex = startIndex + lim
           in (Inr \<lparr>data = js_slice playlists startIndex endIndex, page = pg, limit = lim,
                    total = tot, totalPages = tps,
                    hasNext = (pg < tps), hasPrev = (pg > 1)\<rparr>, st1)))"

definition findByUserIdAndName ::
  "(string \<Rightarrow> string) \<Rightarrow> string \<Rightarrow> string \<Rightarrow> playlist store \<Rightarrow> (js_error + playlist option) \<times> playlist store" where
  "findByUserIdAndName toLowerCase uid n st =
     (case getAllPlaylists st of
        (Inl err, st1) \<Rightarrow> (Inl err, st1)
      | (Inr playlists, st1) \<Rightarrow>
          (Inr (find (\<lambda>p. userId p = uid \<and> toLowerCase (name p) = toLowerCase n) playlists), st1))"


text \<open>The \<open>updates\<close> argument of \<open>update\<close>: only \<open>name\<close> and \<open>trackIds\<close> are looked at.\<close>

record updates =
  upd_name :: "string option"
  upd_trackIds :: "string list option"

definition playlist_update ::
  "string \<Rightarrow> string \<Rightarrow> updates \<Rightarrow> string \<Rightarrow> playlist store
     \<Rightarrow> (js_error + playlist option) \<times> playlist store" where
  "playlist_update pid uid upd now st =
     (case getAllPlaylists st of
        (Inl err, st1) \<Rightarrow> (Inl err, st1)
      | (Inr playlists, st1) \<Rightarrow>
          (let index = findIndex (owned pid uid) playlists in
           if index = - 1 then (Inr None, st1)
           else
             (let old = playlists ! nat index;
                  new = old\<lparr>name := (case upd_name upd of None \<Rightarrow> name old | Some n \<Rightarrow> n),
                            trackIds := (case upd_trackIds upd of None \<Rightarrow> trackIds old | Some ts \<Rightarrow> ts),
                            updatedAt := now\<rparr>;
                  playlists' = playlists[nat index := new]
              in (Inr (Some (playlists' ! nat index)), saveAllPlaylists playlists' st1))))"

text \<open>\<open>playlists.splice(index, 1)\<close> removes the element at \<open>index\<close>.\<close>

definition playlist_remove ::
  "string \<Rightarrow> string \<Rightarrow> playlist store \<Rightarrow> (js_error + bool) \<times> playlist store" where
  "playlist_remove pid uid st =
     (case getAllPlaylists st of
        (Inl err, st1) \<Rightarrow> (Inl err, st1)
      | (Inr playlists, st1) \<Rightarrow>
          (let index = findIndex (owned pid uid) playlists in
           if index = - 1 then (Inr False, st1)
           else
             (let playlists' = take (nat index) playlists @ drop (nat index + 1) playlists
              in (Inr True, saveAllPlaylists playlists' st1))))"

definition playlist_addTrack ::
  "string \<Rightarrow> string \<Rightarrow> string \<Rightarrow> string \<Rightarrow> playlist store
     \<Rightarrow> (js_error + playlist option) \<times> playlist store" where
  "playlist_addTrack pid uid trackId now st =
     (case getAllPlaylists st of
        (Inl err, st1) \<Rightarrow> (Inl err, st1)
      | (Inr playlists, st1) \<Rightarrow>
          (let index = findIndex (owned pid uid) playlists in
           if index = - 1 then (Inr None, st1)
           else if trackId \<notin> set (trackIds (playlists ! nat index)) then
             (let old = playlists ! nat index;
                  new = old\<lparr>trackIds := trackIds old @ [trackId], updatedAt := now\<rparr>;
                  playlists' = playlists[nat index := new]
              in (Inr (Some (playlists' ! nat index)), saveAllPlaylists playlists' st1))
           else (Inr (Some (playlists ! nat index)), st1)))"

text \<open>
  The \<open>for\<close> loop of the playlist store's \<open>addTracks\<close>, on the playlist's \<open>trackIds\<close>:
  \<^verbatim>\<open>if (!playlists[index].trackIds.includes(trackId)) playlists[index].trackIds.push(trackId)\<close>
\<close>

fun push_new :: "string list \<Rightarrow> string list \<Rightarrow> string list" where
  "push_new [] ids = ids"
| "push_new (trackId # rest) ids =
     push_new rest (if trackId \<notin> set ids then ids @ [trackId] else ids)"

definition playlist_addTracks ::
  "string \<Rightarrow> string \<Rightarrow> string list \<Rightarrow> string \<Rightarrow> playlist store
     \<Rightarrow> (js_error + playlist option) \<times> playlist store" where
  "playlist_addTracks pid uid newIds now st =
     (case getAllPlaylists st of
        (Inl err, st1) \<Rightarrow> (Inl err, st1)
      | (Inr playlists, st1) \<Rightarrow>
          (let index = findIndex (owned pid uid) playlists in
           if index = - 1 then (Inr None, st1)
           else
             (let old = playlists ! nat index;
                  new = old\<lparr>trackIds := push_new newIds (trackIds old), updatedAt := now\<rparr>;
                  playlists' = playlists[nat index := new]
              in (Inr (Some (playlists' ! nat index)), saveAllPlaylists playlists' st1))))"

definition playlist_removeTrack ::
  "string \<Rightarrow> string \<Rightarrow> string \<Rightarrow> string \<Rightarrow> playlist store
     \<Rightarrow> (js_error + playlist option) \<times> playlist store" where
  "playlist_removeTrack pid uid trackId now st =
     (case getAllPlaylists st of
        (Inl err, st1) \<Rightarrow> (Inl err, st1)
      | (Inr playlists, st1) \<Rightarrow>
          (let index = findIndex (owned pid uid) playlists in
           if index = - 1 then (Inr None, st1)
           else
             (let old = playlists ! nat index;
                  new = old\<lparr>trackIds := filter (\<lambda>i. i \<noteq> trackId) (trackIds old), updatedAt := now\<rparr>;
                  playlists' = playlists[nat index := new]
              in (Inr (Some (playlists' ! nat index)), saveAllPlaylists playlists' st1))))"

section \<open>The path resolver\<close>

text \<open>
  \<open>path.join\<close>, \<open>String.prototype.normalize\<close> (applied to the form, \<open>NFC\<close> or
  \<open>NFD\<close>, and the string) and \<open>fs.existsSync\<close> (the state of the file system) are
  parameters. The \<open>filePath\<close> argument is \<open>fpath\<close>: \<open>None\<close> when \<open>null\<close>; \<open>!filePath\<close> also holds of the empty string.
\<close>

definition resolveTrackPath ::
  "(string \<Rightarrow> string \<Rightarrow> string) \<Rightarrow> (string \<Rightarrow> string \<Rightarrow> string) \<Rightarrow> (string \<Rightarrow> bool)
     \<Rightarrow> string \<Rightarrow> string option \<Rightarrow> string option" where
  "resolveTrackPath join normalise existsSync songsDir fpath =
     (case fpath of
        None \<Rightarrow> None
      | Some fp \<Rightarrow>
          if fp = [] then None
          else
            (let original = join songsDir fp in
             if existsSync original then Some original
             else
               (let nfc = join songsDir (normalise ''NFC'' fp) in
                if existsSync nfc then Some nfc
                else
                  (let nfd = join songsDir (normalise ''NFD'' fp) in
                   if existsSync nfd then Some nfd
                   else None))))"

section \<open>The streaming responder\<close>

subsection \<open>Numbers\<close>

text \<open>
  The numbers the range arithmetic handles: an integer or \<open>NaN\<close>. The integers are
  exact (no rounding above \<open>2^53\<close>). Every comparison with \<open>NaN\<close> is false, every sum
  or difference with \<open>NaN\<close> is \<open>NaN\<close>.
\<close>

datatype jsnum = NaN | Num int

fun js_ge :: "jsnum \<Rightarrow> jsnum \<Rightarrow> bool" where
  "js_ge (Num a) (Num b) = (a \<ge> b)"
| "js_ge _ _ = False"

fun js_gt :: "jsnum \<Rightarrow> jsnum \<Rightarrow> bool" where
  "js_gt (Num a) (Num b) = (a > b)"
| "js_gt _ _ = False"

fun js_add :: "jsnum \<Rightarrow> jsnum \<Rightarrow> jsnum" where
  "js_add (Num a) (Num b) = Num (a + b)"
| "js_add _ _ = NaN"

fun js_sub :: "jsnum \<Rightarrow> jsnum \<Rightarrow> jsnum" where
  "js_sub (Num a) (Num b) = Num (a - b)"
| "js_sub _ _ = NaN"

definition digit_char :: "nat \<Rightarrow> char" where
  "digit_char d = char_of (48 + d)"

fun digits :: "nat \<Rightarrow> string" where
  "digits n = (if n < 10 then [digit_char n] else digits (n div 10) @ [digit_char (n mod 10)])"

declare digits.simps [simp del]

text \<open>The decimal text of a number, as a template literal or a header value shows it.\<close>

fun js_toString :: "jsnum \<Rightarrow> string" where
  "js_toString NaN = ''NaN''"
| "js_toString (Num i) = (if i < 0 then CHR ''-'' # digits (nat (- i)) else digits (nat i))"

subsection \<open>Parsing\<close>

text \<open>
  The white space \<open>parseInt\<close> skips. A header value reaches the handler as a string of
  code units below 256 (Node decodes the bytes of a header as Latin-1), one per
  character here; among these the white space and line terminators of JavaScript are
  the code units 9 to 13, 32 and 160 (the no-break space).
\<close>

definition is_space :: "char \<Rightarrow> bool" where
  "is_space c = ((of_char c :: nat) \<in> {9, 10, 11, 12, 13, 32, 160})"

definition is_digit :: "char \<Rightarrow> bool" where
  "is_digit c = (48 \<le> (of_char c :: nat) \<and> (of_char c :: nat) \<le> 57)"

definition digit_val :: "char \<Rightarrow> int" where
  "digit_val c = int (of_char c) - 48"

text \<open>
  \<open>parseInt(s, 10)\<close>: leading white space is skipped, a sign is read, then the longest
  run of decimal digits; with no digit the result is \<open>NaN\<close>.
\<close>

definition parseInt :: "string \<Rightarrow> jsnum" where
  "parseInt s =
     (let t = dropWhile is_space s;
          neg = (t \<noteq> [] \<and> hd t = CHR ''-'');
          u = (if t \<noteq> [] \<and> (hd t = CHR ''-'' \<or> hd t = CHR ''+'') then tl t else t);
          ds = takeWhile is_digit u
      in if ds = [] then NaN
         else Num ((if neg then - 1 else 1) * foldl (\<lambda>a c. a * 10 + digit_val c) 0 ds))"

text \<open>\<open>s.replace(/pat/, rep)\<close> for a literal pattern: the first occurrence is replaced.\<close>

fun str_replace :: "string \<Rightarrow> string \<Rightarrow> string \<Rightarrow> string" where
  "str_replace pat rep [] = (if pat = [] then rep else [])"
| "str_replace pat rep (c # cs) =
     (if starts_with pat (c # cs) then rep @ drop (length pat) (c # cs)
      else c # str_replace pat rep cs)"

text \<open>\<open>s.split(sep)\<close> for a separator of one character.\<close>

fun str_split :: "char \<Rightarrow> string \<Rightarrow> string list" where
  "str_split sep [] = [[]]"
| "str_split sep (c # cs) =
     (if c = sep then [] # str_split sep cs
      else (case str_split sep cs of [] \<Rightarrow> [[c]] | p # ps \<Rightarrow> (c # p) # ps))"

text \<open>\<open>parts[i]\<close>: \<open>undefined\<close> (here \<open>None\<close>) beyond the end of the array.\<close>

definition at_index :: "'a list \<Rightarrow> nat \<Rightarrow> 'a option" where
  "at_index xs i = (if i < length xs then Some (xs ! i) else None)"

text \<open>
  The start and end of the range as the handler reads them from the header:
  \<^verbatim>\<open>const parts = range.replace(/bytes=/, '').split('-');
const start = parseInt(parts[0], 10);
const end = parts[1] ? parseInt(parts[1], 10) : fileSize - 1;\<close>
\<close>

definition range_parts :: "string \<Rightarrow> string list" where
  "range_parts hdr = str_split (CHR ''-'') (str_replace ''bytes='' [] hdr)"

definition range_start :: "string \<Rightarrow> jsnum" where
  "range_start hdr =
     (case at_index (range_parts hdr) 0 of None \<Rightarrow> NaN | Some p \<Rightarrow> parseInt p)"

definition range_end :: "string \<Rightarrow> jsnum \<Rightarrow> jsnum" where
  "range_end hdr fileSize =
     (case at_index (range_parts hdr) 1 of
        None \<Rightarrow> js_sub fileSize (Num 1)
      | Some p \<Rightarrow> if p \<noteq> [] then parseInt p else js_sub fileSize (Num 1))"

text \<open>The test that leads to the 416 response.\<close>

definition range_rejected :: "jsnum \<Rightarrow> jsnum \<Rightarrow> jsnum \<Rightarrow> bool" where
  "range_rejected start end fileSize =
     (js_ge start fileSize \<or> js_ge end fileSize \<or> js_gt start end)"

subsection \<open>The response\<close>

type_synonym byte = "8 word"

text \<open>
  Node's \<open>fs.createReadStream(path, {start, end})\<close> on a file of the given bytes: both
  options must be non-negative integers with \<open>start <= end\<close>, or the call throws; the
  stream then delivers the bytes from \<open>start\<close> to \<open>end\<close>, both included, as far as the
  file has them.
\<close>

definition createReadStream :: "byte list \<Rightarrow> jsnum \<Rightarrow> jsnum \<Rightarrow> js_error + byte list" where
  "createReadStream bytes start end =
     (case (start, end) of
        (Num s, Num e) \<Rightarrow>
          if s < 0 \<or> e < 0 \<or> s > e then Inl RangeError
          else Inr (take (nat (e - s + 1)) (drop (nat s) bytes))
      | _ \<Rightarrow> Inl RangeError)"

datatype body = ErrorBody string | Bytes "byte list"

record response =
  status :: nat
  headers :: "(string \<times> string) list"
  body :: body

text \<open>
  The stream handler from the point where the track's file is resolved: \<open>bytes\<close> is the
  file, \<open>mimeType\<close> its type, \<open>hdr\<close> the \<open>Range\<close> header (\<open>None\<close> when absent;
  \<open>if (range)\<close> is also false of the empty string). A JSON error response keeps its
  error code only. An error thrown on the way is caught and answered with 500.
\<close>

definition stream_file :: "string \<Rightarrow> byte list \<Rightarrow> string option \<Rightarrow> response" where
  "stream_file mimeType bytes hdr =
     (let fileSize = Num (int (length bytes)) in
      if hdr \<noteq> None \<and> hdr \<noteq> Some [] then
        (let start = range_start (the hdr);
             end = range_end (the hdr) fileSize
         in if range_rejected start end fileSize then
              \<lparr>status = 416, headers = [], body = ErrorBody ''RANGE_NOT_SATISFIABLE''\<rparr>
            else
              (let chunkSize = js_add (js_sub end start) (Num 1) in
               case createReadStream bytes start end of
                 Inl err \<Rightarrow> \<lparr>status = 500, headers = [], body = ErrorBody ''INTERNAL_ERROR''\<rparr>
               | Inr stream \<Rightarrow>
                   \<lparr>status = 206,
                    headers =
                      [(''Content-Range'',
                          ''bytes '' @ js_toString start @ ''-'' @ js_toString end @ ''/''
                            @ js_toString fileSize),
                       (''Accept-Ranges'', ''bytes''),
                       (''Content-Length'', js_toString chunkSize),
                       (''Content-Type'', mimeType),
                       (''Cache-Control'', ''public, max-age=86400'')],
                    body = Bytes stream\<rparr>))
      else
        \<lparr>status = 200,
         headers =
           [(''Content-Length'', js_toString fileSize),
            (''Content-Type'', mimeType),
            (''Accept-Ranges'', ''bytes''),
            (''Cache-Control'', ''public, max-age=86400'')],
         body = Bytes bytes\<rparr>)"

section \<open>The playlist add stated as a union with append order\<close>

text \<open>
  What the specification says of adding track ids to a playlist, to be compared with
  the loop \<open>push_new\<close> of the code: the ids already present are skipped, the others
  are appended at the end, each once, in the order of their first occurrence.
\<close>

fun first_occurrences :: "'a list \<Rightarrow> 'a list" where
  "first_occurrences [] = []"
| "first_occurrences (x # xs) = x # first_occurrences (filter (\<lambda>y. y \<noteq> x) xs)"

definition append_absent :: "string list \<Rightarrow> string list \<Rightarrow> string list" where
  "append_absent old newIds = old @ first_occurrences (filter (\<lambda>t. t \<notin> set old) newIds)"

section \<open>Example data\<close>

text \<open>A store holding one playlist of the user \<open>alice\<close>, with the tracks \<open>A\<close> and \<open>B\<close>.\<close>

definition pl0 :: playlist where
  "pl0 = \<lparr>playlist_id = ''p1'', userId = ''alice'', name = ''Salsa'', trackIds = [''A'', ''B''],
          createdAt = ''t0'', updatedAt = ''t0''\<rparr>"

definition st0 :: "playlist store" where
  "st0 = \<lparr>backing = Data (Json [pl0]), trace = []\<rparr>"

text \<open>
  A lower-casing of the letters \<open>A\<close> to \<open>Z\<close>, to stand for \<open>toLowerCase\<close> in the
  instances below: on strings of ASCII characters, the only ones it is applied to, it
  is what \<open>toLowerCase\<close> computes.
\<close>

definition ascii_lower_char :: "char \<Rightarrow> char" where
  "ascii_lower_char c =
     (if 65 \<le> (of_char c :: nat) \<and> (of_char c :: nat) \<le> 90
      then char_of ((of_char c :: nat) + 32) else c)"

definition ascii_lower :: "string \<Rightarrow> string" where
  "ascii_lower s = map ascii_lower_char s"

text \<open>
  A track, the same track named in another case variant, a tracks store whose
  backing file does not exist yet, and a store that holds the track.
\<close>

definition muse :: track where
  "muse = \<lparr>track_id = ''id-1'', trackName = ''Starlight'', artist = ''Muse'', album = None,
           releaseDate = None, durationMs = None, sourceUrl = None,
           filePath = Some ''Muse-Starlight.m4a'', track_createdAt = ''t0''\<rparr>"

definition muse_again :: track where
  "muse_again = \<lparr>track_id = ''id-2'', trackName = ''STARLIGHT'', artist = ''muse'', album = None,
           releaseDate = None, durationMs = None, sourceUrl = None,
                 filePath = None, track_createdAt = ''t1''\<rparr>"

definition no_tracks_file :: "track store" where
  "no_tracks_file = \<lparr>backing = Failing ''ENOENT'', trace = []\<rparr>"

definition muse_stored :: "track store" where
  "muse_stored = \<lparr>backing = Data (Json [muse]), trace = []\<rparr>"

text \<open>Two more tracks and a store of three tracks, for the listings.\<close>

definition track_a :: track where
  "track_a = \<lparr>track_id = ''a'', trackName = ''Uprising'', artist = ''Muse'', album = None,
           releaseDate = None, durationMs = None, sourceUrl = None,
              filePath = None, track_createdAt = ''t1''\<rparr>"

definition track_b :: track where
  "track_b = \<lparr>track_id = ''b'', trackName = ''Hysteria'', artist = ''Muse'', album = None,
           releaseDate = None, durationMs = None, sourceUrl = None,
              filePath = None, track_createdAt = ''t2''\<rparr>"

definition three_tracks :: "track store" where
  "three_tracks = \<lparr>backing = Data (Json [muse, track_a, track_b]), trace = []\<rparr>"

text \<open>
  A file system for the path resolver: \<open>path.join\<close> puts a slash between directory and
  name; the one file on disk is stored under the decomposed form of its name, and
  normalisation maps the two forms of that name to each other.
\<close>

definition join_slash :: "string \<Rightarrow> string \<Rightarrow> string" where
  "join_slash dir p = dir @ ''/'' @ p"

definition cafe_normalize :: "string \<Rightarrow> string \<Rightarrow> string" where
  "cafe_normalize form p =
     (if p = ''cafe-nfc.m4a'' \<or> p = ''cafe-nfd.m4a''
      then (if form = ''NFC'' then ''cafe-nfc.m4a'' else ''cafe-nfd.m4a'')
      else p)"

definition cafe_fs :: "string \<Rightarrow> bool" where
  "cafe_fs p = (p = ''songs/cafe-nfd.m4a'')"

text \<open>A file of 1000 bytes.\<close>

definition kilobyte_file :: "byte list" where
  "kilobyte_file = replicate 1000 0"

section \<open>Properties of the document store\<close>

lemma loadAll_cases:
  "fst (loadAll \<lparr>backing = Failing c, trace = tr\<rparr>) = (if c = ''ENOENT'' then Inr [] else Inl (FsError c))"
  "fst (loadAll \<lparr>backing = Data Garbled, trace = tr\<rparr>) = Inl SyntaxError"
  "fst (loadAll \<lparr>backing = Data (Json ds), trace = tr\<rparr>) = Inr ds"
  by (simp_all add: loadAll_def on_load_error_def)

text \<open>
  Claim C9. In each of the four stores (tracks, playlists, users, token blocklist) the
  loader returns the empty collection when the backing file is missing; a read that
  fails for any other reason and a file that is not JSON come back as the thrown error,
  with no data; a readable file gives its documents.
\<close>

theorem loaders_missing_is_empty_errors_propagate:
  "fst (getAllTracks \<lparr>backing = Failing ''ENOENT'', trace = tr\<rparr>) = Inr []
   \<and> fst (getAllPlaylists \<lparr>backing = Failing ''ENOENT'', trace = tr\<rparr>) = Inr []
   \<and> fst (getAllUsers \<lparr>backing = Failing ''ENOENT'', trace = tr\<rparr>) = Inr []
   \<and> fst (getBlocklist \<lparr>backing = Failing ''ENOENT'', trace = tr\<rparr>) = Inr []
   \<and> (c \<noteq> ''ENOENT'' \<longrightarrow>
        fst (getAllTracks \<lparr>backing = Failing c, trace = tr\<rparr>) = Inl (FsError c)
      \<and> fst (getAllPlaylists \<lparr>backing = Failing c, trace = tr\<rparr>) = Inl (FsError c)
      \<and> fst (getAllUsers \<lparr>backing = Failing c, trace = tr\<rparr>) = Inl (FsError c)
      \<and> fst (getBlocklist \<lparr>backing = Failing c, trace = tr\<rparr>) = Inl (FsError c))
   \<and> fst (getAllTracks \<lparr>backing = Data Garbled, trace = tr\<rparr>) = Inl SyntaxError
   \<and> fst (getAllPlaylists \<lparr>backing = Data Garbled, trace = tr\<rparr>) = Inl SyntaxError
   \<and> fst (getAllUsers \<lparr>backing = Data Garbled, trace = tr\<rparr>) = Inl SyntaxError
   \<and> fst (getBlocklist \<lparr>backing = Data Garbled, trace = tr\<rparr>) = Inl SyntaxError
   \<and> fst (getAllTracks \<lparr>backing = Data (Json ts), trace = tr\<rparr>) = Inr ts
   \<and> fst (getAllPlaylists \<lparr>backing = Data (Json ps), trace = tr\<rparr>) = Inr ps
   \<and> fst (getAllUsers \<lparr>backing = Data (Json us), trace = tr\<rparr>) = Inr us
   \<and> fst (getBlocklist \<lparr>backing = Data (Json bs), trace = tr\<rparr>) = Inr bs"
  by (simp add: getAllTracks_def getAllPlaylists_def getAllUsers_def getBlocklist_def loadAll_cases)

theorem loaders_errors_propagate_witness:
  "''EACCES'' \<noteq> ''ENOENT''
   \<and> fst (getAllTracks \<lparr>backing = Failing ''EACCES'', trace = []\<rparr>) = Inl (FsError ''EACCES'')
   \<and> fst (getAllPlaylists \<lparr>backing = Failing ''EACCES'', trace = []\<rparr>) = Inl (FsError ''EACCES'')
   \<and> fst (getAllUsers \<lparr>backing = Failing ''EACCES'', trace = []\<rparr>) = Inl (FsError ''EACCES'')
   \<and> fst (getBlocklist \<lparr>backing = Failing ''EACCES'', trace = []\<rparr>) = Inl (FsError ''EACCES'')"
  using loaders_missing_is_empty_errors_propagate [of "[]" "''EACCES''" "[]" "[]" "[]" "[]"] by simp

section \<open>Properties of the playlist repository\<close>

lemma set_first_occurrences: "set (first_occurrences xs) = set xs"
  by (induction xs rule: first_occurrences.induct) auto

lemma distinct_first_occurrences: "distinct (first_occurrences xs)"
  by (induction xs rule: first_occurrences.induct) (auto simp: set_first_occurrences)

lemma push_new_append_absent: "push_new xs ids = append_absent ids xs"
proof (induction xs arbitrary: ids)
  case Nil
  then show ?case by (simp add: append_absent_def)
next
  case (Cons x xs)
  show ?case
  proof (cases "x \<in> set ids")
    case True
    then show ?thesis using Cons.IH [of ids] by (simp add: append_absent_def)
  next
    case False
    have "filter (\<lambda>t. t \<notin> set (ids @ [x])) xs = filter (\<lambda>y. y \<noteq> x) (filter (\<lambda>t. t \<notin> set ids) xs)"
      by (induction xs) auto
    then show ?thesis using False Cons.IH [of "ids @ [x]"] by (simp add: append_absent_def)
  qed
qed

lemma findIndex_ge: "- 1 \<le> findIndex P xs"
  by (induction xs) (auto simp: Let_def)

lemma findIndex_none: "(findIndex P xs = - 1) = (\<forall>x \<in> set xs. \<not> P x)"
proof (induction xs)
  case Nil
  then show ?case by simp
next
  case (Cons x xs)
  then show ?case using findIndex_ge [of P xs] by (auto simp: Let_def)
qed

lemma findIndex_nonneg: "findIndex P xs = - 1 \<or> (0 \<le> findIndex P xs \<and> findIndex P xs < int (length xs))"
  by (induction xs) (auto simp: Let_def)

lemma findIndex_first:
  "i < length xs \<Longrightarrow> P (xs ! i) \<Longrightarrow> \<forall>j < i. \<not> P (xs ! j) \<Longrightarrow> findIndex P xs = int i"
proof (induction xs arbitrary: i)
  case Nil
  then show ?case by simp
next
  case (Cons x xs)
  show ?case
  proof (cases i)
    case 0
    then show ?thesis using Cons.prems by simp
  next
    case (Suc k)
    have nx: "\<not> P x" using Cons.prems(3) Suc by auto
    have "\<forall>j < k. \<not> P (xs ! j)" using Cons.prems(3) Suc by auto
    then have "findIndex P xs = int k" using Cons.IH [of k] Cons.prems Suc by simp
    then show ?thesis using nx Suc by (simp add: Let_def)
  qed
qed

lemma findIndex_found:
  "findIndex P xs \<noteq> - 1 \<Longrightarrow> nat (findIndex P xs) < length xs \<and> P (xs ! nat (findIndex P xs))"
proof (induction xs)
  case Nil
  then show ?case by simp
next
  case (Cons x xs)
  then show ?case using findIndex_nonneg [of P xs]
    by (auto simp: Let_def nat_add_distrib split: if_splits)
qed

lemma loadAll_snd: "snd (loadAll st) = st\<lparr>trace := trace st @ [Load]\<rparr>"
  by (simp add: loadAll_def)

lemma getAllPlaylists_eq:
  "fst (getAllPlaylists st) = r \<Longrightarrow> getAllPlaylists st = (r, st\<lparr>trace := trace st @ [Load]\<rparr>)"
  by (simp add: getAllPlaylists_def prod_eq_iff loadAll_snd)

lemma getAllTracks_eq:
  "fst (getAllTracks st) = r \<Longrightarrow> getAllTracks st = (r, st\<lparr>trace := trace st @ [Load]\<rparr>)"
  by (simp add: getAllTracks_def prod_eq_iff loadAll_snd)

text \<open>
  Claim C2. When no stored playlist has both the given id and the given user as owner,
  each of \<open>update\<close>, \<open>remove\<close>, \<open>addTrack\<close>, \<open>addTracks\<close> and \<open>removeTrack\<close>
  returns its not-found result (\<open>null\<close>, or \<open>false\<close> for \<open>remove\<close>); the store has
  been read once and not written, and its backing file is what it was.
\<close>

theorem unowned_mutation_is_not_found_and_writes_nothing:
  assumes load: "fst (getAllPlaylists st) = Inr ps"
      and none: "\<forall>p \<in> set ps. \<not> (playlist_id p = pid \<and> userId p = uid)"
  shows "playlist_update pid uid upd now st = (Inr None, st\<lparr>trace := trace st @ [Load]\<rparr>)
       \<and> playlist_remove pid uid st = (Inr False, st\<lparr>trace := trace st @ [Load]\<rparr>)
       \<and> playlist_addTrack pid uid trackId now st = (Inr None, st\<lparr>trace := trace st @ [Load]\<rparr>)
       \<and> playlist_addTracks pid uid newIds now st = (Inr None, st\<lparr>trace := trace st @ [Load]\<rparr>)
       \<and> playlist_removeTrack pid uid trackId now st = (Inr None, st\<lparr>trace := trace st @ [Load]\<rparr>)
       \<and> backing (st\<lparr>trace := trace st @ [Load]\<rparr>) = backing st"
proof -
  have idx: "findIndex (owned pid uid) ps = - 1"
    using none by (simp add: findIndex_none owned_def)
  note ld = getAllPlaylists_eq [OF load]
  have 1: "playlist_update pid uid upd now st = (Inr None, st\<lparr>trace := trace st @ [Load]\<rparr>)"
    by (simp add: playlist_update_def ld idx)
  have 2: "playlist_remove pid uid st = (Inr False, st\<lparr>trace := trace st @ [Load]\<rparr>)"
    by (simp add: playlist_remove_def ld idx)
  have 3: "playlist_addTrack pid uid trackId now st = (Inr None, st\<lparr>trace := trace st @ [Load]\<rparr>)"
    by (simp add: playlist_addTrack_def ld idx)
  have 4: "playlist_addTracks pid uid newIds now st = (Inr None, st\<lparr>trace := trace st @ [Load]\<rparr>)"
    by (simp add: playlist_addTracks_def ld idx)
  have 5: "playlist_removeTrack pid uid trackId now st = (Inr None, st\<lparr>trace := trace st @ [Load]\<rparr>)"
    by (simp add: playlist_removeTrack_def ld idx)
  show ?thesis using 1 2 3 4 5 by simp
qed

theorem unowned_mutation_witness:
  "fst (getAllPlaylists st0) = Inr [pl0]
   \<and> userId pl0 \<noteq> ''mallory''
   \<and> playlist_update ''p1'' ''mallory'' \<lparr>upd_name = Some ''x'', upd_trackIds = None\<rparr> ''t1'' st0
        = (Inr None, \<lparr>backing = Data (Json [pl0]), trace = [Load]\<rparr>)
   \<and> playlist_remove ''p1'' ''mallory'' st0 = (Inr False, \<lparr>backing = Data (Json [pl0]), trace = [Load]\<rparr>)
   \<and> playlist_addTrack ''p1'' ''mallory'' ''C'' ''t1'' st0
        = (Inr None, \<lparr>backing = Data (Json [pl0]), trace = [Load]\<rparr>)"
proof -
  have h1: "fst (getAllPlaylists st0) = Inr [pl0]"
    by (simp add: getAllPlaylists_def loadAll_def st0_def)
  have h2: "\<forall>p \<in> set [pl0]. \<not> (playlist_id p = ''p1'' \<and> userId p = ''mallory'')"
    by (simp add: pl0_def)
  have h3: "userId pl0 \<noteq> ''mallory''"
    by (simp add: pl0_def)
  show ?thesis
    using h1 h3
      unowned_mutation_is_not_found_and_writes_nothing [OF h1 h2,
        of "\<lparr>upd_name = Some ''x'', upd_trackIds = None\<rparr>" "''t1''" "''C''" "[]"]
    by (simp add: st0_def)
qed

text \<open>
  Claim C4. On the playlist the caller owns (the first one with the given id and
  owner), \<open>addTracks\<close> keeps the track ids already there in their order and appends
  the ids of the argument that were absent, each once, in the order of their first
  occurrence; what it appends is free of duplicates and disjoint from what was there,
  so a playlist without duplicates has none afterwards. The other playlists are
  untouched. (Adding \<open>B, C, A, D\<close> to \<open>A, B\<close> gives \<open>A, B, C, D\<close>: the instance below.)
\<close>

theorem addTracks_is_union_with_append_order:
  assumes load: "fst (getAllPlaylists st) = Inr ps"
      and i: "i < length ps"
      and own: "playlist_id (ps ! i) = pid \<and> userId (ps ! i) = uid"
      and first: "\<forall>j < i. \<not> (playlist_id (ps ! j) = pid \<and> userId (ps ! j) = uid)"
  shows "\<exists>added.
           added = first_occurrences (filter (\<lambda>t. t \<notin> set (trackIds (ps ! i))) newIds)
         \<and> fst (playlist_addTracks pid uid newIds now st)
             = Inr (Some ((ps ! i)\<lparr>trackIds := trackIds (ps ! i) @ added, updatedAt := now\<rparr>))
         \<and> backing (snd (playlist_addTracks pid uid newIds now st))
             = Data (Json (ps[i := (ps ! i)\<lparr>trackIds := trackIds (ps ! i) @ added, updatedAt := now\<rparr>]))
         \<and> distinct added
         \<and> set added = set newIds - set (trackIds (ps ! i))
         \<and> (distinct (trackIds (ps ! i)) \<longrightarrow> distinct (trackIds (ps ! i) @ added))"
proof -
  let ?old = "trackIds (ps ! i)"
  let ?added = "first_occurrences (filter (\<lambda>t. t \<notin> set ?old) newIds)"
  have idx: "findIndex (owned pid uid) ps = int i"
    using findIndex_first [of i ps "owned pid uid"] i own first by (simp add: owned_def)
  note ld = getAllPlaylists_eq [OF load]
  have run: "playlist_addTracks pid uid newIds now st =
      (Inr (Some ((ps ! i)\<lparr>trackIds := ?old @ ?added, updatedAt := now\<rparr>)),
       saveAllPlaylists (ps[i := (ps ! i)\<lparr>trackIds := ?old @ ?added, updatedAt := now\<rparr>])
         (st\<lparr>trace := trace st @ [Load]\<rparr>))"
    using i by (simp add: playlist_addTracks_def ld idx Let_def push_new_append_absent append_absent_def)
  have d: "distinct ?added" by (rule distinct_first_occurrences)
  have s: "set ?added = set newIds - set ?old" by (auto simp: set_first_occurrences)
  have "distinct ?old \<longrightarrow> distinct (?old @ ?added)" using d s by auto
  then show ?thesis using run d s by (simp add: saveAllPlaylists_def saveAll_def)
qed

theorem addTracks_union_witness:
  "fst (getAllPlaylists st0) = Inr [pl0] \<and> 0 < length [pl0]
   \<and> playlist_id ([pl0] ! 0) = ''p1'' \<and> userId ([pl0] ! 0) = ''alice''
   \<and> fst (playlist_addTracks ''p1'' ''alice'' [''B'', ''C'', ''A'', ''D''] ''t1'' st0)
        = Inr (Some (pl0\<lparr>trackIds := [''A'', ''B'', ''C'', ''D''], updatedAt := ''t1''\<rparr>))
   \<and> backing (snd (playlist_addTracks ''p1'' ''alice'' [''B'', ''C'', ''A'', ''D''] ''t1'' st0))
        = Data (Json [pl0\<lparr>trackIds := [''A'', ''B'', ''C'', ''D''], updatedAt := ''t1''\<rparr>])"
proof -
  have h1: "fst (getAllPlaylists st0) = Inr [pl0]"
    by (simp add: getAllPlaylists_def loadAll_def st0_def)
  have h2: "0 < length [pl0]" by simp
  have h3: "playlist_id ([pl0] ! 0) = ''p1'' \<and> userId ([pl0] ! 0) = ''alice''"
    by (simp add: pl0_def)
  have h4: "\<forall>j < 0. \<not> (playlist_id ([pl0] ! j) = ''p1'' \<and> userId ([pl0] ! j) = ''alice'')"
    by simp
  have tr: "trackIds pl0 = [''A'', ''B'']" by (simp add: pl0_def)
  show ?thesis
    using h1 h3
      addTracks_is_union_with_append_order [OF h1 h2 h3 h4, of "[''B'', ''C'', ''A'', ''D'']" "''t1''"]
    by (simp add: tr)
qed

text \<open>
  Claim C6. The claim asks that a playlist add whose ids are all present leaves
  \<open>updatedAt\<close> and the stored document as they were. The single-id \<open>addTrack\<close> does
  so; \<open>addTracks\<close> does not: adding the present id \<open>A\<close> at time \<open>t1\<close> sets
  \<open>updatedAt\<close> to \<open>t1\<close> and writes the store.
\<close>

theorem addTracks_touches_updatedAt_without_new_id:
  "playlist_addTracks ''p1'' ''alice'' [''A''] ''t1'' st0
     = (Inr (Some (pl0\<lparr>updatedAt := ''t1''\<rparr>)),
        \<lparr>backing = Data (Json [pl0\<lparr>updatedAt := ''t1''\<rparr>]), trace = [Load, Save]\<rparr>)
   \<and> playlist_addTrack ''p1'' ''alice'' ''A'' ''t1'' st0
     = (Inr (Some pl0), \<lparr>backing = Data (Json [pl0]), trace = [Load]\<rparr>)"
  by (simp add: playlist_addTracks_def playlist_addTrack_def getAllPlaylists_def loadAll_def
      saveAllPlaylists_def saveAll_def st0_def pl0_def owned_def Let_def)

lemma addTrack_present_id_changes_nothing:
  assumes load: "fst (getAllPlaylists st) = Inr ps"
      and i: "i < length ps"
      and own: "playlist_id (ps ! i) = pid \<and> userId (ps ! i) = uid"
      and first: "\<forall>j < i. \<not> (playlist_id (ps ! j) = pid \<and> userId (ps ! j) = uid)"
      and present: "trackId \<in> set (trackIds (ps ! i))"
  shows "playlist_addTrack pid uid trackId now st = (Inr (Some (ps ! i)), st\<lparr>trace := trace st @ [Load]\<rparr>)"
proof -
  have idx: "findIndex (owned pid uid) ps = int i"
    using findIndex_first [of i ps "owned pid uid"] i own first by (simp add: owned_def)
  show ?thesis using present by (simp add: playlist_addTrack_def getAllPlaylists_eq [OF load] idx)
qed

section \<open>Properties of the track repository\<close>

lemma find_snoc:
  "find P (xs @ [x]) = (case find P xs of Some y \<Rightarrow> Some y | None \<Rightarrow> if P x then Some x else None)"
  by (induction xs) auto

lemma find_None_filter: "find P xs = None \<Longrightarrow> filter P xs = []"
  by (induction xs) (auto split: if_splits)

lemma find_Some_filter: "find P xs = Some y \<Longrightarrow> 1 \<le> length (filter P xs)"
  by (induction xs) (auto split: if_splits)

lemma getAllTracks_after_load:
  "fst (getAllTracks (st\<lparr>trace := tr\<rparr>)) = fst (getAllTracks st)"
  by (simp add: getAllTracks_def loadAll_def)

lemma getAllTracks_after_save:
  "fst (getAllTracks (saveAllTracks ts st)) = Inr ts"
  by (simp add: getAllTracks_def loadAll_def saveAllTracks_def saveAll_def)

lemma addTrack_existing:
  assumes "fst (getAllTracks st) = Inr ts"
      and "find (same_key toLowerCase (artist tr) (trackName tr)) ts = Some ex"
  shows "track_addTrack toLowerCase tr st = (Inr ex, st\<lparr>trace := trace st @ [Load]\<rparr>)"
  using assms by (simp add: track_addTrack_def findByArtistAndName_def getAllTracks_eq [OF assms(1)])

lemma addTrack_new:
  assumes "fst (getAllTracks st) = Inr ts"
      and "find (same_key toLowerCase (artist tr) (trackName tr)) ts = None"
  shows "track_addTrack toLowerCase tr st =
           (Inr tr, st\<lparr>backing := Data (Json (ts @ [tr])), trace := trace st @ [Load, Load, Save]\<rparr>)"
proof -
  let ?st1 = "st\<lparr>trace := trace st @ [Load]\<rparr>"
  have l2: "fst (getAllTracks ?st1) = Inr ts"
    using assms(1) by (simp add: getAllTracks_after_load)
  show ?thesis
    using assms(2)
    by (simp add: track_addTrack_def findByArtistAndName_def getAllTracks_eq [OF assms(1)]
        getAllTracks_eq [OF l2] saveAllTracks_def saveAll_def)
qed

text \<open>
  Claim C3. On a readable tracks store, \<open>addTrack\<close> looks for the first stored track
  whose artist and whose track name both equal the argument's after \<open>toLowerCase\<close>. It
  returns that track and writes nothing; when there is none it appends the argument
  and saves. A second \<open>addTrack\<close> with the same artist and track name in any case
  variant (any strings with the same lower-case forms) returns what the first call
  returned and leaves the file as the first call left it; the store then holds exactly
  one track of that key when it held at most one before.
\<close>

theorem addTrack_idempotent_on_artist_and_name:
  assumes load: "fst (getAllTracks st) = Inr ts"
      and variant: "toLowerCase (artist tr2) = toLowerCase (artist tr)
                    \<and> toLowerCase (trackName tr2) = toLowerCase (trackName tr)"
  shows "(\<forall>ex. find (\<lambda>t. toLowerCase (artist t) = toLowerCase (artist tr)
                        \<and> toLowerCase (trackName t) = toLowerCase (trackName tr)) ts = Some ex \<longrightarrow>
            track_addTrack toLowerCase tr st = (Inr ex, st\<lparr>trace := trace st @ [Load]\<rparr>))
       \<and> (find (\<lambda>t. toLowerCase (artist t) = toLowerCase (artist tr)
                   \<and> toLowerCase (trackName t) = toLowerCase (trackName tr)) ts = None \<longrightarrow>
            track_addTrack toLowerCase tr st =
              (Inr tr, st\<lparr>backing := Data (Json (ts @ [tr])), trace := trace st @ [Load, Load, Save]\<rparr>))
       \<and> fst (track_addTrack toLowerCase tr2 (snd (track_addTrack toLowerCase tr st)))
            = fst (track_addTrack toLowerCase tr st)
       \<and> backing (snd (track_addTrack toLowerCase tr2 (snd (track_addTrack toLowerCase tr st))))
            = backing (snd (track_addTrack toLowerCase tr st))
       \<and> (\<exists>stored.
             fst (getAllTracks (snd (track_addTrack toLowerCase tr2 (snd (track_addTrack toLowerCase tr st)))))
               = Inr stored
           \<and> length (filter (\<lambda>t. toLowerCase (artist t) = toLowerCase (artist tr)
                               \<and> toLowerCase (trackName t) = toLowerCase (trackName tr)) stored)
               = max 1 (length (filter (\<lambda>t. toLowerCase (artist t) = toLowerCase (artist tr)
                                           \<and> toLowerCase (trackName t) = toLowerCase (trackName tr)) ts)))"
proof -
  let ?P = "\<lambda>t. toLowerCase (artist t) = toLowerCase (artist tr)
                 \<and> toLowerCase (trackName t) = toLowerCase (trackName tr)"
  have key: "same_key toLowerCase (artist tr) (trackName tr) = ?P"
    by (simp add: same_key_def fun_eq_iff)
  have key2: "same_key toLowerCase (artist tr2) (trackName tr2) = ?P"
    using variant by (simp add: same_key_def fun_eq_iff)
  have self: "?P tr" by simp
  show ?thesis
  proof (cases "find ?P ts")
    case None
    have none: "find (same_key toLowerCase (artist tr) (trackName tr)) ts = None"
      using None by (simp only: key)
    note first = addTrack_new [OF load none]
    let ?st1 = "st\<lparr>backing := Data (Json (ts @ [tr])), trace := trace st @ [Load, Load, Save]\<rparr>"
    have l1: "fst (getAllTracks ?st1) = Inr (ts @ [tr])"
      by (simp add: getAllTracks_def loadAll_def)
    have "find ?P (ts @ [tr]) = Some tr"
      using None self by (simp add: find_snoc)
    then have f2: "find (same_key toLowerCase (artist tr2) (trackName tr2)) (ts @ [tr]) = Some tr"
      by (simp only: key2)
    have second: "track_addTrack toLowerCase tr2 ?st1 = (Inr tr, ?st1\<lparr>trace := trace ?st1 @ [Load]\<rparr>)"
      by (rule addTrack_existing [OF l1 f2])
    have cnt: "length (filter ?P (ts @ [tr])) = max 1 (length (filter ?P ts))"
      using find_None_filter [OF None] self by simp
    have l3: "fst (getAllTracks (?st1\<lparr>trace := trace ?st1 @ [Load]\<rparr>)) = Inr (ts @ [tr])"
      by (simp add: getAllTracks_def loadAll_def)
    show ?thesis
      using None cnt l3 by (simp add: first second)
  next
    case (Some ex)
    have some: "find (same_key toLowerCase (artist tr) (trackName tr)) ts = Some ex"
      using Some by (simp only: key)
    note first = addTrack_existing [OF load some]
    let ?st1 = "st\<lparr>trace := trace st @ [Load]\<rparr>"
    have l1: "fst (getAllTracks ?st1) = Inr ts"
      using load by (simp add: getAllTracks_after_load)
    have f2: "find (same_key toLowerCase (artist tr2) (trackName tr2)) ts = Some ex"
      using Some by (simp only: key2)
    have second: "track_addTrack toLowerCase tr2 ?st1 = (Inr ex, ?st1\<lparr>trace := trace ?st1 @ [Load]\<rparr>)"
      by (rule addTrack_existing [OF l1 f2])
    have cnt: "length (filter ?P ts) = max 1 (length (filter ?P ts))"
      using find_Some_filter [OF Some] by simp
    have l3: "fst (getAllTracks (?st1\<lparr>trace := trace ?st1 @ [Load]\<rparr>)) = Inr ts"
      using load by (simp add: getAllTracks_after_load)
    show ?thesis
      using Some cnt l3 by (simp add: first second)
  qed
qed

theorem addTrack_idempotent_witness:
  "fst (getAllTracks no_tracks_file) = Inr []
   \<and> (ascii_lower (artist muse_again) = ascii_lower (artist muse)
        \<and> ascii_lower (trackName muse_again) = ascii_lower (trackName muse))
   \<and> ascii_lower ''STARLIGHT'' = ''starlight''
   \<and> track_addTrack ascii_lower muse no_tracks_file
        = (Inr muse, \<lparr>backing = Data (Json [muse]), trace = [Load, Load, Save]\<rparr>)
   \<and> fst (track_addTrack ascii_lower muse_again (snd (track_addTrack ascii_lower muse no_tracks_file)))
        = Inr muse
   \<and> backing (snd (track_addTrack ascii_lower muse_again (snd (track_addTrack ascii_lower muse no_tracks_file))))
        = Data (Json [muse])
   \<and> fst (getAllTracks muse_stored) = Inr [muse]
   \<and> track_addTrack ascii_lower muse_again muse_stored
        = (Inr muse, \<lparr>backing = Data (Json [muse]), trace = [Load]\<rparr>)
   \<and> track_addTrack ascii_lower track_a muse_stored
        = (Inr track_a, \<lparr>backing = Data (Json [muse, track_a]), trace = [Load, Load, Save]\<rparr>)"
proof -
  have h1: "fst (getAllTracks no_tracks_file) = Inr []"
    by (simp add: getAllTracks_def loadAll_def on_load_error_def no_tracks_file_def)
  have a: "ascii_lower (artist muse_again) = ascii_lower (artist muse)" by code_simp
  have n: "ascii_lower (trackName muse_again) = ascii_lower (trackName muse)" by code_simp
  have h2: "ascii_lower (artist muse_again) = ascii_lower (artist muse)
            \<and> ascii_lower (trackName muse_again) = ascii_lower (trackName muse)"
    using a n by simp
  have low: "ascii_lower ''STARLIGHT'' = ''starlight''" by code_simp
  note t = addTrack_idempotent_on_artist_and_name [OF h1 h2]
  have new: "track_addTrack ascii_lower muse no_tracks_file
        = (Inr muse, \<lparr>backing = Data (Json [muse]), trace = [Load, Load, Save]\<rparr>)"
    using t by (simp add: no_tracks_file_def)
  have c3: "fst (track_addTrack ascii_lower muse_again (snd (track_addTrack ascii_lower muse no_tracks_file)))
              = fst (track_addTrack ascii_lower muse no_tracks_file)"
    using t by (rule conjunct1 [OF conjunct2 [OF conjunct2]])
  have c4: "backing (snd (track_addTrack ascii_lower muse_again (snd (track_addTrack ascii_lower muse no_tracks_file))))
              = backing (snd (track_addTrack ascii_lower muse no_tracks_file))"
    using t by (rule conjunct1 [OF conjunct2 [OF conjunct2 [OF conjunct2]]])
  have r3: "fst (track_addTrack ascii_lower muse_again (snd (track_addTrack ascii_lower muse no_tracks_file)))
              = Inr muse"
    using c3 by (simp add: new)
  have r4: "backing (snd (track_addTrack ascii_lower muse_again (snd (track_addTrack ascii_lower muse no_tracks_file))))
              = Data (Json [muse])"
    using c4 by (simp add: new)
  have h3: "fst (getAllTracks muse_stored) = Inr [muse]"
    by (simp add: getAllTracks_def loadAll_def muse_stored_def)
  have same: "ascii_lower (artist muse_again) = ascii_lower (artist muse_again)
            \<and> ascii_lower (trackName muse_again) = ascii_lower (trackName muse_again)"
    by simp
  have hit: "find (\<lambda>t. ascii_lower (artist t) = ascii_lower (artist muse_again)
                      \<and> ascii_lower (trackName t) = ascii_lower (trackName muse_again)) [muse]
               = Some muse"
    using h2 by simp
  have dup: "track_addTrack ascii_lower muse_again muse_stored
        = (Inr muse, \<lparr>backing = Data (Json [muse]), trace = [Load]\<rparr>)"
    using addTrack_idempotent_on_artist_and_name [OF h3 same] hit by (simp add: muse_stored_def)
  have differs: "ascii_lower (trackName muse) \<noteq> ascii_lower (trackName track_a)" by code_simp
  have same_a: "ascii_lower (artist track_a) = ascii_lower (artist track_a)
            \<and> ascii_lower (trackName track_a) = ascii_lower (trackName track_a)"
    by simp
  have miss: "find (\<lambda>t. ascii_lower (artist t) = ascii_lower (artist track_a)
                       \<and> ascii_lower (trackName t) = ascii_lower (trackName track_a)) [muse]
               = None"
    using differs by simp
  have other: "track_addTrack ascii_lower track_a muse_stored
        = (Inr track_a, \<lparr>backing = Data (Json [muse, track_a]), trace = [Load, Load, Save]\<rparr>)"
    using addTrack_idempotent_on_artist_and_name [OF h3 same_a] miss by (simp add: muse_stored_def)
  show ?thesis
    using h1 h2 low new r3 r4 h3 dup other by blast
qed

lemma trace_loadAll: "trace (snd (loadAll st)) = trace st @ [Load]"
  by (simp add: loadAll_def)

lemma fst_loadAll_trace: "fst (loadAll (st\<lparr>trace := tr\<rparr>)) = fst (loadAll st)"
  by (simp add: loadAll_def)







section \<open>Properties of pagination and of the path resolver\<close>

lemma ceil_div_upper: "1 \<le> l \<Longrightarrow> a \<le> ceil_div a l * l"
proof -
  assume l: "1 \<le> l"
  have "(- a) div l * l + (- a) mod l = - a" by simp
  moreover have "0 \<le> (- a) mod l" using l by simp
  ultimately have "(- a) div l * l \<le> - a" by linarith
  then show ?thesis by (simp add: ceil_div_def)
qed

lemma ceil_div_lower: "1 \<le> l \<Longrightarrow> (ceil_div a l - 1) * l < a"
proof -
  assume l: "1 \<le> l"
  have e: "(- a) div l * l + (- a) mod l = - a" by simp
  have "(- a) mod l < l" using l by simp
  with e have "- a - l < (- a) div l * l" by linarith
  then show ?thesis by (simp add: ceil_div_def algebra_simps)
qed

lemma ceil_div_nonneg: "1 \<le> l \<Longrightarrow> 0 \<le> a \<Longrightarrow> 0 \<le> ceil_div a l"
proof -
  assume l: "1 \<le> l" and a: "0 \<le> a"
  have "(- a) div l \<le> 0" using l a by (simp add: div_nonpos_pos_le0)
  then show ?thesis by (simp add: ceil_div_def)
qed

lemma js_slice_beyond: "int (length xs) \<le> s \<Longrightarrow> js_slice xs s e = []"
  by (auto simp: js_slice_def Let_def min_def max_def)

lemma js_slice_inside:
  "0 \<le> s \<Longrightarrow> s < int (length xs) \<Longrightarrow> s < e \<Longrightarrow> js_slice xs s e \<noteq> []"
  by (auto simp: js_slice_def Let_def min_def max_def)

lemma paginate_clamps:
  assumes l: "1 \<le> lim"
  shows "1 \<le> page (paginate items pg lim)
       \<and> page (paginate items pg lim) \<le> totalPages (paginate items pg lim)
       \<and> (totalPages (paginate items pg lim) < pg \<longrightarrow>
            page (paginate items pg lim) = totalPages (paginate items pg lim))
       \<and> (items \<noteq> [] \<longrightarrow> data (paginate items pg lim) \<noteq> [])"
proof -
  let ?t = "int (length items)"
  let ?tps = "if ceil_div ?t lim = 0 then 1 else ceil_div ?t lim"
  let ?sp = "max 1 (min pg ?tps)"
  have tps1: "1 \<le> ?tps" using ceil_div_nonneg [OF l, of ?t] by auto
  have sp: "1 \<le> ?sp \<and> ?sp \<le> ?tps" using tps1 by auto
  have nonempty: "items \<noteq> [] \<longrightarrow> js_slice items ((?sp - 1) * lim) ((?sp - 1) * lim + lim) \<noteq> []"
  proof
    assume ne: "items \<noteq> []"
    then have tpos: "0 < ?t" by simp
    have "ceil_div ?t lim \<noteq> 0" using ceil_div_upper [OF l, of ?t] tpos by auto
    then have tps: "?tps = ceil_div ?t lim" by simp
    have "(?sp - 1) * lim \<le> (?tps - 1) * lim" using sp l by (simp add: mult_right_mono)
    also have "\<dots> < ?t" using ceil_div_lower [OF l, of ?t] tps by simp
    finally have lt: "(?sp - 1) * lim < ?t" .
    have ge: "0 \<le> (?sp - 1) * lim" using sp l by simp
    show "js_slice items ((?sp - 1) * lim) ((?sp - 1) * lim + lim) \<noteq> []"
      using js_slice_inside [OF ge lt] l by simp
  qed
  show ?thesis using sp tps1 nonempty by (simp add: paginate_def Let_def)
qed

lemma getAll_beyond_last_page_is_empty:
  assumes load: "fst (getAllTracks st) = Inr ts"
      and l: "1 \<le> lim"
      and res: "fst (getAll toLowerCase getTime pg lim [] False st) = Inr r"
      and beyond: "totalPages r < pg"
  shows "page r = pg \<and> data r = [] \<and> total r = int (length ts)"
proof -
  have r: "r = \<lparr>data = js_slice ts ((pg - 1) * lim) ((pg - 1) * lim + lim), page = pg, limit = lim,
                 total = int (length ts), totalPages = ceil_div (int (length ts)) lim,
                 hasNext = (pg < ceil_div (int (length ts)) lim), hasPrev = (pg > 1)\<rparr>"
    using res by (simp add: getAll_def getAllTracks_eq [OF load] Let_def)
  have "ceil_div (int (length ts)) lim \<le> pg - 1" using beyond r by simp
  then have "ceil_div (int (length ts)) lim * lim \<le> (pg - 1) * lim"
    using l by (simp add: mult_right_mono)
  then have "int (length ts) \<le> (pg - 1) * lim"
    using ceil_div_upper [OF l, of "int (length ts)"] by linarith
  then show ?thesis using r by (simp add: js_slice_beyond)
qed

text \<open>
  Claim C5. The claim asks that every listing clamp a page beyond \<open>totalPages\<close> to the
  last page. The helper \<open>paginate\<close> does (see \<open>paginate_clamps\<close>); the listings of the
  stores, \<open>getAll\<close> and \<open>getByUserId\<close>, do not: for page 5 of three tracks by two they
  answer with page 5 and no data, where \<open>paginate\<close> answers with page 2 and its track.
\<close>

theorem store_listings_do_not_clamp_the_page:
  "fst (getAll ascii_lower (\<lambda>s. 0) 5 2 [] False three_tracks)
     = Inr \<lparr>data = [], page = 5, limit = 2, total = 3, totalPages = 2,
            hasNext = False, hasPrev = True\<rparr>
   \<and> paginate [muse, track_a, track_b] 5 2
     = \<lparr>data = [track_b], page = 2, limit = 2, total = 3, totalPages = 2,
        hasNext = False, hasPrev = True\<rparr>
   \<and> fst (getByUserId ''alice'' 3 20 st0)
     = Inr \<lparr>data = [], page = 3, limit = 20, total = 1, totalPages = 1,
            hasNext = False, hasPrev = True\<rparr>"
  by code_simp

text \<open>
  Claim C7. \<open>resolveTrackPath\<close> returns the first candidate that exists among the path
  as given, its NFC form and its NFD form, in this order; it returns \<open>null\<close> exactly
  when the path is \<open>null\<close> or empty or none of the three exists; so a non-empty path
  whose NFC or NFD form is on disk resolves to an existing file. The function only
  asks the file system whether paths exist: its result is all it produces.
\<close>

theorem resolveTrackPath_first_existing_candidate:
  "resolveTrackPath join norm ex dir fp =
     (case fp of
        None \<Rightarrow> None
      | Some p \<Rightarrow>
          if p = [] then None
          else find ex [join dir p, join dir (norm ''NFC'' p), join dir (norm ''NFD'' p)])
   \<and> (resolveTrackPath join norm ex dir fp = None \<longleftrightarrow>
        fp = None \<or> fp = Some []
        \<or> (\<exists>p. fp = Some p \<and> \<not> ex (join dir p) \<and> \<not> ex (join dir (norm ''NFC'' p))
                 \<and> \<not> ex (join dir (norm ''NFD'' p))))
   \<and> (\<forall>p. fp = Some p \<and> p \<noteq> []
            \<and> (ex (join dir (norm ''NFC'' p)) \<or> ex (join dir (norm ''NFD'' p)))
          \<longrightarrow> (\<exists>q. resolveTrackPath join norm ex dir fp = Some q \<and> ex q))"
proof (cases fp)
  case None
  then show ?thesis by (simp add: resolveTrackPath_def)
next
  case (Some p)
  then show ?thesis by (auto simp: resolveTrackPath_def Let_def)
qed

theorem resolveTrackPath_witness:
  "cafe_fs (join_slash ''songs'' (cafe_normalize ''NFD'' ''cafe-nfc.m4a''))
   \<and> resolveTrackPath join_slash cafe_normalize cafe_fs ''songs'' (Some ''cafe-nfc.m4a'')
       = Some ''songs/cafe-nfd.m4a''
   \<and> resolveTrackPath join_slash cafe_normalize cafe_fs ''songs'' (Some ''cafe-nfd.m4a'')
       = Some ''songs/cafe-nfd.m4a''
   \<and> resolveTrackPath join_slash cafe_normalize cafe_fs ''songs'' (Some ''other.m4a'') = None"
proof -
  have e: "cafe_fs (join_slash ''songs'' (cafe_normalize ''NFD'' ''cafe-nfc.m4a''))"
    by (simp add: cafe_fs_def join_slash_def cafe_normalize_def)
  have r1: "resolveTrackPath join_slash cafe_normalize cafe_fs ''songs'' (Some ''cafe-nfc.m4a'')
       = Some ''songs/cafe-nfd.m4a''"
    using resolveTrackPath_first_existing_candidate
      [of join_slash cafe_normalize cafe_fs "''songs''" "Some ''cafe-nfc.m4a''"]
    by (simp add: cafe_fs_def join_slash_def cafe_normalize_def)
  have r2: "resolveTrackPath join_slash cafe_normalize cafe_fs ''songs'' (Some ''cafe-nfd.m4a'')
       = Some ''songs/cafe-nfd.m4a''"
    using resolveTrackPath_first_existing_candidate
      [of join_slash cafe_normalize cafe_fs "''songs''" "Some ''cafe-nfd.m4a''"]
    by (simp add: cafe_fs_def join_slash_def cafe_normalize_def)
  have r3: "resolveTrackPath join_slash cafe_normalize cafe_fs ''songs'' (Some ''other.m4a'') = None"
    using resolveTrackPath_first_existing_candidate
      [of join_slash cafe_normalize cafe_fs "''songs''" "Some ''other.m4a''"]
    by (simp add: cafe_fs_def join_slash_def cafe_normalize_def)
  show ?thesis using e r1 r2 r3 by simp
qed

section \<open>Properties of the streaming responder\<close>

lemma str_split_nonempty: "str_split c s \<noteq> []"
  by (induction s) (auto split: list.splits)

lemma str_split_no_sep: "p \<in> set (str_split c s) \<Longrightarrow> c \<notin> set p"
proof (induction s arbitrary: p)
  case Nil
  then show ?case by simp
next
  case (Cons x xs)
  show ?case
  proof (cases "x = c")
    case True
    then show ?thesis using Cons by auto
  next
    case False
    obtain q qs where q: "str_split c xs = q # qs"
      using str_split_nonempty [of c xs] by (cases "str_split c xs") auto
    have "c \<notin> set q" using Cons.IH [of q] q by simp
    moreover have "\<forall>r \<in> set qs. c \<notin> set r" using Cons.IH q by simp
    ultimately show ?thesis using Cons.prems False q by auto
  qed
qed

lemma digits_fold_nonneg:
  "0 \<le> a \<Longrightarrow> \<forall>c \<in> set ds. is_digit c \<Longrightarrow> 0 \<le> foldl (\<lambda>a c. a * 10 + digit_val c) a ds"
proof (induction ds arbitrary: a)
  case Nil
  then show ?case by simp
next
  case (Cons d ds)
  have "0 \<le> digit_val d" using Cons.prems(2) by (simp add: is_digit_def digit_val_def)
  then have "0 \<le> a * 10 + digit_val d" using Cons.prems(1) by simp
  then show ?case using Cons.IH [of "a * 10 + digit_val d"] Cons.prems(2) by simp
qed

lemma parseInt_nonneg:
  assumes nodash: "CHR ''-'' \<notin> set p" and num: "parseInt p = Num n"
  shows "0 \<le> n"
proof -
  define t where "t = dropWhile is_space p"
  define u where "u = (if t \<noteq> [] \<and> (hd t = CHR ''-'' \<or> hd t = CHR ''+'') then tl t else t)"
  define ds where "ds = takeWhile is_digit u"
  have pe: "parseInt p =
      (if ds = [] then NaN
       else Num ((if t \<noteq> [] \<and> hd t = CHR ''-'' then - 1 else 1)
                 * foldl (\<lambda>a c. a * 10 + digit_val c) 0 ds))"
    unfolding parseInt_def Let_def t_def u_def ds_def by (rule refl)
  have sub: "set t \<subseteq> set p" unfolding t_def by (auto dest: set_dropWhileD)
  have noneg: "\<not> (t \<noteq> [] \<and> hd t = CHR ''-'')"
  proof
    assume a: "t \<noteq> [] \<and> hd t = CHR ''-''"
    then have "hd t \<in> set t" using hd_in_set [of t] by blast
    then show False using a sub nodash by auto
  qed
  have alld: "\<forall>c \<in> set ds. is_digit c" unfolding ds_def by (auto dest: set_takeWhileD)
  have "n = foldl (\<lambda>a c. a * 10 + digit_val c) 0 ds"
    using num noneg unfolding pe by (simp split: if_splits)
  then show ?thesis using digits_fold_nonneg [of 0 ds] alld by simp
qed

lemma range_start_nonneg:
  assumes "range_start hdr = Num s"
  shows "0 \<le> s"
proof -
  obtain q qs where q: "range_parts hdr = q # qs"
    using str_split_nonempty by (cases "range_parts hdr") (auto simp: range_parts_def)
  have "q \<in> set (str_split (CHR ''-'') (str_replace ''bytes='' [] hdr))"
    using q by (simp add: range_parts_def)
  then have nd: "CHR ''-'' \<notin> set q" by (rule str_split_no_sep)
  have "parseInt q = Num s" using assms q by (simp add: range_start_def at_index_def)
  then show ?thesis using nd by (rule parseInt_nonneg [rotated])
qed

lemma is_digit_plain: "is_digit c \<Longrightarrow> \<not> is_space c \<and> c \<noteq> CHR ''-'' \<and> c \<noteq> CHR ''+''"
  by (auto simp: is_digit_def is_space_def)

lemma digit_char_digit: "d < 10 \<Longrightarrow> is_digit (digit_char d) \<and> digit_val (digit_char d) = int d"
  by (simp add: is_digit_def digit_val_def digit_char_def)

lemma digits_nonempty: "digits n \<noteq> []"
  by (subst digits.simps) simp

lemma digits_small: "n < 10 \<Longrightarrow> digits n = [digit_char n]"
  by (subst digits.simps) simp

lemma digits_large: "\<not> n < 10 \<Longrightarrow> digits n = digits (n div 10) @ [digit_char (n mod 10)]"
  by (subst digits.simps) simp

lemma digits_all_digit: "c \<in> set (digits n) \<Longrightarrow> is_digit c"
proof (induction n rule: digits.induct)
  case (1 n)
  show ?case
  proof (cases "n < 10")
    case True
    then show ?thesis using "1.prems" by (simp add: digits_small digit_char_digit)
  next
    case False
    have "c \<in> set (digits (n div 10)) \<or> c = digit_char (n mod 10)"
      using "1.prems" by (auto simp: digits_large [OF False])
    then show ?thesis using "1.IH" False digit_char_digit [of "n mod 10"] by auto
  qed
qed

lemma digits_value: "foldl (\<lambda>a c. a * 10 + digit_val c) 0 (digits n) = int n"
proof (induction n rule: digits.induct)
  case (1 n)
  show ?case
  proof (cases "n < 10")
    case True
    then show ?thesis by (simp add: digits_small digit_char_digit)
  next
    case False
    have "foldl (\<lambda>a c. a * 10 + digit_val c) 0 (digits n)
            = foldl (\<lambda>a c. a * 10 + digit_val c) 0 (digits (n div 10)) * 10
                + digit_val (digit_char (n mod 10))"
      by (simp add: digits_large [OF False])
    also have "\<dots> = int (n div 10) * 10 + int (n mod 10)"
      using "1.IH" False digit_char_digit [of "n mod 10"] by simp
    also have "\<dots> = int n" by (simp add: zdiv_int zmod_int)
    finally show ?thesis .
  qed
qed

lemma parseInt_digits: "parseInt (digits n) = Num (int n)"
proof -
  have hd_d: "is_digit (hd (digits n))"
    using digits_nonempty [of n] digits_all_digit [of "hd (digits n)" n] by simp
  have dw: "dropWhile is_space (digits n) = digits n"
    using hd_d is_digit_plain by (simp add: dropWhile_eq_self_iff)
  have tw: "takeWhile is_digit (digits n) = digits n"
    using digits_all_digit by (simp add: takeWhile_eq_all_conv)
  show ?thesis
    using hd_d is_digit_plain [OF hd_d] digits_nonempty [of n]
    by (simp add: parseInt_def Let_def dw tw digits_value)
qed

lemma str_split_single: "c \<notin> set xs \<Longrightarrow> str_split c xs = [xs]"
  by (induction xs) auto

lemma str_split_append: "c \<notin> set xs \<Longrightarrow> str_split c (xs @ c # ys) = xs # str_split c ys"
  by (induction xs) auto

lemma digits_no_dash: "CHR ''-'' \<notin> set (digits n)"
  using digits_all_digit is_digit_plain by blast

lemma str_replace_prefix: "str_replace ''bytes='' [] (''bytes='' @ r) = r"
  by simp

lemma range_parts_bare:
  assumes "hdr = ''bytes='' @ digits a"
  shows "range_parts hdr = [digits a]"
proof -
  have "range_parts hdr = str_split (CHR ''-'') (digits a)"
    unfolding range_parts_def assms by (simp only: str_replace_prefix)
  then show ?thesis by (simp add: str_split_single digits_no_dash)
qed

lemma range_parts_open:
  assumes "hdr = ''bytes='' @ digits a @ ''-''"
  shows "range_parts hdr = [digits a, []]"
proof -
  have "range_parts hdr = str_split (CHR ''-'') (digits a @ ''-'')"
    unfolding range_parts_def assms by (simp only: str_replace_prefix)
  then show ?thesis using str_split_append [OF digits_no_dash, of a "[]"] by simp
qed

lemma range_parts_closed:
  assumes "hdr = ''bytes='' @ digits a @ ''-'' @ digits b"
  shows "range_parts hdr = [digits a, digits b]"
proof -
  have "range_parts hdr = str_split (CHR ''-'') (digits a @ ''-'' @ digits b)"
    unfolding range_parts_def assms by (simp only: str_replace_prefix)
  then show ?thesis
    using str_split_append [OF digits_no_dash, of a "digits b"]
    by (simp add: str_split_single digits_no_dash)
qed

lemma range_of_bare:
  assumes "hdr = ''bytes='' @ digits a"
  shows "range_start hdr = Num (int a) \<and> range_end hdr (Num n) = Num (n - 1)"
  by (simp add: range_start_def range_end_def range_parts_bare [OF assms] at_index_def
      parseInt_digits)

lemma range_of_open:
  assumes "hdr = ''bytes='' @ digits a @ ''-''"
  shows "range_start hdr = Num (int a) \<and> range_end hdr (Num n) = Num (n - 1)"
  by (simp add: range_start_def range_end_def range_parts_open [OF assms] at_index_def
      parseInt_digits)

lemma range_of_closed:
  assumes "hdr = ''bytes='' @ digits a @ ''-'' @ digits b"
  shows "range_start hdr = Num (int a) \<and> range_end hdr (Num n) = Num (int b)"
  by (simp add: range_start_def range_end_def range_parts_closed [OF assms] at_index_def
      parseInt_digits digits_nonempty)

lemma stream_file_on_numbers:
  assumes present: "hdr \<noteq> []"
      and hstart: "range_start hdr = Num s"
      and hend: "range_end hdr (Num (int (length bytes))) = Num e"
  shows "stream_file mimeType bytes (Some hdr) =
           (if s \<ge> int (length bytes) \<or> e \<ge> int (length bytes) \<or> s > e
            then \<lparr>status = 416, headers = [], body = ErrorBody ''RANGE_NOT_SATISFIABLE''\<rparr>
            else \<lparr>status = 206,
                  headers =
                    [(''Content-Range'',
                        ''bytes '' @ js_toString (Num s) @ ''-'' @ js_toString (Num e) @ ''/''
                          @ js_toString (Num (int (length bytes)))),
                     (''Accept-Ranges'', ''bytes''),
                     (''Content-Length'', js_toString (Num (e - s + 1))),
                     (''Content-Type'', mimeType),
                     (''Cache-Control'', ''public, max-age=86400'')],
                  body = Bytes (take (nat (e - s + 1)) (drop (nat s) bytes))\<rparr>)"
proof -
  let ?n = "int (length bytes)"
  let ?bad = "s \<ge> ?n \<or> e \<ge> ?n \<or> s > e"
  have s0: "0 \<le> s" using hstart by (rule range_start_nonneg)
  have rej: "range_rejected (Num s) (Num e) (Num ?n) = ?bad"
    by (simp add: range_rejected_def)
  show ?thesis
  proof (cases ?bad)
    case True
    then show ?thesis
      using present hstart hend rej by (simp add: stream_file_def Let_def del: js_toString.simps)
  next
    case False
    have crs: "createReadStream bytes (Num s) (Num e) = Inr (take (nat (e - s + 1)) (drop (nat s) bytes))"
      using False s0 by (simp add: createReadStream_def)
    show ?thesis
      using False present hstart hend rej crs
      by (simp add: stream_file_def Let_def del: js_toString.simps)
  qed
qed

lemma stream_file_closed_range:
  "stream_file mimeType bytes (Some (''bytes='' @ digits a @ ''-'' @ digits b)) =
     (if length bytes \<le> a \<or> length bytes \<le> b \<or> b < a
      then \<lparr>status = 416, headers = [], body = ErrorBody ''RANGE_NOT_SATISFIABLE''\<rparr>
      else \<lparr>status = 206,
            headers =
              [(''Content-Range'',
                  ''bytes '' @ digits a @ ''-'' @ digits b @ ''/'' @ digits (length bytes)),
               (''Accept-Ranges'', ''bytes''),
               (''Content-Length'', digits (b - a + 1)),
               (''Content-Type'', mimeType),
               (''Cache-Control'', ''public, max-age=86400'')],
            body = Bytes (take (b - a + 1) (drop a bytes))\<rparr>)"
proof -
  define hdr where "hdr = ''bytes='' @ digits a @ ''-'' @ digits b"
  have ne: "hdr \<noteq> []" by (simp add: hdr_def)
  note r = range_of_closed [OF hdr_def, of "int (length bytes)"]
  have eq: "stream_file mimeType bytes (Some hdr) =
           (if int a \<ge> int (length bytes) \<or> int b \<ge> int (length bytes) \<or> int a > int b
            then \<lparr>status = 416, headers = [], body = ErrorBody ''RANGE_NOT_SATISFIABLE''\<rparr>
            else \<lparr>status = 206,
                  headers =
                    [(''Content-Range'',
                        ''bytes '' @ js_toString (Num (int a)) @ ''-'' @ js_toString (Num (int b)) @ ''/''
                          @ js_toString (Num (int (length bytes)))),
                     (''Accept-Ranges'', ''bytes''),
                     (''Content-Length'', js_toString (Num (int b - int a + 1))),
                     (''Content-Type'', mimeType),
                     (''Cache-Control'', ''public, max-age=86400'')],
                  body = Bytes (take (nat (int b - int a + 1)) (drop (nat (int a)) bytes))\<rparr>)"
    by (rule stream_file_on_numbers [OF ne conjunct1 [OF r] conjunct2 [OF r]])
  have str: "\<And>k. js_toString (Num (int k)) = digits k" by simp
  show ?thesis
  proof (cases "length bytes \<le> a \<or> length bytes \<le> b \<or> b < a")
    case True
    then have bad: "int a \<ge> int (length bytes) \<or> int b \<ge> int (length bytes) \<or> int a > int b"
      by auto
    show ?thesis
      unfolding hdr_def [symmetric] eq using True bad by (simp only: if_True)
  next
    case False
    then have good: "\<not> (int a \<ge> int (length bytes) \<or> int b \<ge> int (length bytes) \<or> int a > int b)"
      by auto
    have n1: "nat (int b - int a + 1) = b - a + 1" using False by auto
    have n0: "nat (int a) = a" by simp
    have s1: "js_toString (Num (int b - int a + 1)) = digits (b - a + 1)"
      using False n1 by simp
    show ?thesis
      unfolding hdr_def [symmetric] eq using False good
      by (simp only: if_False str s1 n1 n0)
  qed
qed

lemma stream_file_absent_end:
  assumes "bytes \<noteq> []"
  shows "stream_file mimeType bytes (Some (''bytes='' @ digits a @ ''-''))
           = stream_file mimeType bytes (Some (''bytes='' @ digits a @ ''-'' @ digits (length bytes - 1)))
       \<and> stream_file mimeType bytes (Some (''bytes='' @ digits a))
           = stream_file mimeType bytes (Some (''bytes='' @ digits a @ ''-'' @ digits (length bytes - 1)))"
proof -
  define h1 where "h1 = ''bytes='' @ digits a @ ''-''"
  define h2 where "h2 = ''bytes='' @ digits a"
  define h3 where "h3 = ''bytes='' @ digits a @ ''-'' @ digits (length bytes - 1)"
  define n where "n = int (length bytes)"
  have last: "int (length bytes - 1) = n - 1"
    using assms unfolding n_def by (cases bytes) simp_all
  have s1: "range_start h1 = Num (int a)" and e1: "range_end h1 (Num n) = Num (n - 1)"
    using range_of_open [OF h1_def] by blast+
  have s2: "range_start h2 = Num (int a)" and e2: "range_end h2 (Num n) = Num (n - 1)"
    using range_of_bare [OF h2_def] by blast+
  have s3: "range_start h3 = Num (int a)"
    using range_of_closed [OF h3_def] by blast
  have "range_end h3 (Num n) = Num (int (length bytes - 1))"
    using range_of_closed [OF h3_def] by blast
  then have e3: "range_end h3 (Num n) = Num (n - 1)"
    by (simp only: last)
  have ne1: "h1 \<noteq> []" by (simp add: h1_def)
  have ne2: "h2 \<noteq> []" by (simp add: h2_def)
  have ne3: "h3 \<noteq> []" by (simp add: h3_def)
  note f1 = stream_file_on_numbers [OF ne1 s1 e1 [unfolded n_def], of mimeType]
  note f2 = stream_file_on_numbers [OF ne2 s2 e2 [unfolded n_def], of mimeType]
  note f3 = stream_file_on_numbers [OF ne3 s3 e3 [unfolded n_def], of mimeType]
  have "stream_file mimeType bytes (Some h1) = stream_file mimeType bytes (Some h3)"
    by (rule trans [OF f1 f3 [symmetric]])
  moreover have "stream_file mimeType bytes (Some h2) = stream_file mimeType bytes (Some h3)"
    by (rule trans [OF f2 f3 [symmetric]])
  ultimately show ?thesis
    unfolding h1_def h2_def h3_def by (rule conjI)
qed

lemma stream_file_absent_end_empty_file:
  "stream_file mimeType [] (Some (''bytes='' @ digits a @ ''-''))
     = \<lparr>status = 416, headers = [], body = ErrorBody ''RANGE_NOT_SATISFIABLE''\<rparr>"
proof -
  define h1 where "h1 = ''bytes='' @ digits a @ ''-''"
  have s1: "range_start h1 = Num (int a)"
    and e1: "range_end h1 (Num (int (length ([] :: byte list)))) = Num (int (length ([] :: byte list)) - 1)"
    using range_of_open [OF h1_def] by blast+
  have ne: "h1 \<noteq> []" by (simp add: h1_def)
  have "stream_file mimeType [] (Some h1)
     = \<lparr>status = 416, headers = [], body = ErrorBody ''RANGE_NOT_SATISFIABLE''\<rparr>"
    unfolding stream_file_on_numbers [OF ne s1 e1] by (simp del: js_toString.simps)
  then show ?thesis unfolding h1_def .
qed

lemma kilobyte_length: "int (length kilobyte_file) = 1000"
  by (simp add: kilobyte_file_def)

text \<open>
  Claim C1. For a resolved file and a \<open>Range\<close> header from which the handler reads
  the numbers \<open>start\<close> and \<open>end\<close>, the response is the 416 response
  \<open>RANGE_NOT_SATISFIABLE\<close> exactly when \<open>start >= fileSize\<close>, \<open>end >= fileSize\<close> or
  \<open>start > end\<close>; otherwise it is 206 with \<open>Content-Range: bytes start-end/fileSize\<close>,
  \<open>Content-Length\<close> \<open>end - start + 1\<close> and, as body, the bytes of the file from
  \<open>start\<close> to \<open>end\<close>, which are \<open>end - start + 1\<close> bytes. Without a \<open>Range\<close> header
  the response is 200 with \<open>Content-Length\<close> \<open>fileSize\<close> and the whole file as body.
  On the headers \<open>bytes=a-b\<close> of two decimal numbers the handler reads \<open>a\<close> and \<open>b\<close>;
  a header without end, \<open>bytes=a-\<close> or \<open>bytes=a\<close>, is answered as \<open>bytes=a-(fileSize-1)\<close>
  is, and with 416 when the file is empty.
\<close>

theorem stream_range_semantics:
  "(hdr \<noteq> [] \<and> range_start hdr = Num s \<and> range_end hdr (Num (int (length bytes))) = Num e \<longrightarrow>
      (status (stream_file mimeType bytes (Some hdr)) = 416
         \<longleftrightarrow> (s \<ge> int (length bytes) \<or> e \<ge> int (length bytes) \<or> s > e))
    \<and> ((s \<ge> int (length bytes) \<or> e \<ge> int (length bytes) \<or> s > e) \<longrightarrow>
          stream_file mimeType bytes (Some hdr) =
            \<lparr>status = 416, headers = [], body = ErrorBody ''RANGE_NOT_SATISFIABLE''\<rparr>)
    \<and> (\<not> (s \<ge> int (length bytes) \<or> e \<ge> int (length bytes) \<or> s > e) \<longrightarrow>
          stream_file mimeType bytes (Some hdr) =
            \<lparr>status = 206,
             headers =
               [(''Content-Range'',
                   ''bytes '' @ js_toString (Num s) @ ''-'' @ js_toString (Num e) @ ''/''
                     @ js_toString (Num (int (length bytes)))),
                (''Accept-Ranges'', ''bytes''),
                (''Content-Length'', js_toString (Num (e - s + 1))),
                (''Content-Type'', mimeType),
                (''Cache-Control'', ''public, max-age=86400'')],
             body = Bytes (take (nat (e - s + 1)) (drop (nat s) bytes))\<rparr>
          \<and> int (length (take (nat (e - s + 1)) (drop (nat s) bytes))) = e - s + 1))
   \<and> stream_file mimeType bytes None =
        \<lparr>status = 200,
         headers =
           [(''Content-Length'', js_toString (Num (int (length bytes)))),
            (''Content-Type'', mimeType),
            (''Accept-Ranges'', ''bytes''),
            (''Cache-Control'', ''public, max-age=86400'')],
         body = Bytes bytes\<rparr>
   \<and> stream_file mimeType bytes (Some (''bytes='' @ digits a @ ''-'' @ digits b)) =
        (if length bytes \<le> a \<or> length bytes \<le> b \<or> b < a
         then \<lparr>status = 416, headers = [], body = ErrorBody ''RANGE_NOT_SATISFIABLE''\<rparr>
         else \<lparr>status = 206,
               headers =
                 [(''Content-Range'',
                     ''bytes '' @ digits a @ ''-'' @ digits b @ ''/'' @ digits (length bytes)),
                  (''Accept-Ranges'', ''bytes''),
                  (''Content-Length'', digits (b - a + 1)),
                  (''Content-Type'', mimeType),
                  (''Cache-Control'', ''public, max-age=86400'')],
               body = Bytes (take (b - a + 1) (drop a bytes))\<rparr>)
   \<and> (bytes \<noteq> [] \<longrightarrow>
        stream_file mimeType bytes (Some (''bytes='' @ digits a @ ''-''))
          = stream_file mimeType bytes (Some (''bytes='' @ digits a @ ''-'' @ digits (length bytes - 1)))
      \<and> stream_file mimeType bytes (Some (''bytes='' @ digits a))
          = stream_file mimeType bytes (Some (''bytes='' @ digits a @ ''-'' @ digits (length bytes - 1))))
   \<and> stream_file mimeType [] (Some (''bytes='' @ digits a @ ''-''))
        = \<lparr>status = 416, headers = [], body = ErrorBody ''RANGE_NOT_SATISFIABLE''\<rparr>"
proof -
  let ?n = "int (length bytes)"
  let ?bad = "s \<ge> ?n \<or> e \<ge> ?n \<or> s > e"
  have general: "hdr \<noteq> [] \<and> range_start hdr = Num s \<and> range_end hdr (Num ?n) = Num e \<longrightarrow>
      (status (stream_file mimeType bytes (Some hdr)) = 416 \<longleftrightarrow> ?bad)
    \<and> (?bad \<longrightarrow>
          stream_file mimeType bytes (Some hdr) =
            \<lparr>status = 416, headers = [], body = ErrorBody ''RANGE_NOT_SATISFIABLE''\<rparr>)
    \<and> (\<not> ?bad \<longrightarrow>
          stream_file mimeType bytes (Some hdr) =
            \<lparr>status = 206,
             headers =
               [(''Content-Range'',
                   ''bytes '' @ js_toString (Num s) @ ''-'' @ js_toString (Num e) @ ''/''
                     @ js_toString (Num ?n)),
                (''Accept-Ranges'', ''bytes''),
                (''Content-Length'', js_toString (Num (e - s + 1))),
                (''Content-Type'', mimeType),
                (''Cache-Control'', ''public, max-age=86400'')],
             body = Bytes (take (nat (e - s + 1)) (drop (nat s) bytes))\<rparr>
          \<and> int (length (take (nat (e - s + 1)) (drop (nat s) bytes))) = e - s + 1)"
  proof (intro impI)
    assume h: "hdr \<noteq> [] \<and> range_start hdr = Num s \<and> range_end hdr (Num ?n) = Num e"
    then have present: "hdr \<noteq> []" and hstart: "range_start hdr = Num s"
      and hend: "range_end hdr (Num ?n) = Num e" by blast+
    note eq = stream_file_on_numbers [OF present hstart hend, of mimeType]
    have s0: "0 \<le> s" using hstart by (rule range_start_nonneg)
    show "(status (stream_file mimeType bytes (Some hdr)) = 416 \<longleftrightarrow> ?bad)
    \<and> (?bad \<longrightarrow>
          stream_file mimeType bytes (Some hdr) =
            \<lparr>status = 416, headers = [], body = ErrorBody ''RANGE_NOT_SATISFIABLE''\<rparr>)
    \<and> (\<not> ?bad \<longrightarrow>
          stream_file mimeType bytes (Some hdr) =
            \<lparr>status = 206,
             headers =
               [(''Content-Range'',
                   ''bytes '' @ js_toString (Num s) @ ''-'' @ js_toString (Num e) @ ''/''
                     @ js_toString (Num ?n)),
                (''Accept-Ranges'', ''bytes''),
                (''Content-Length'', js_toString (Num (e - s + 1))),
                (''Content-Type'', mimeType),
                (''Cache-Control'', ''public, max-age=86400'')],
             body = Bytes (take (nat (e - s + 1)) (drop (nat s) bytes))\<rparr>
          \<and> int (length (take (nat (e - s + 1)) (drop (nat s) bytes))) = e - s + 1)"
    proof (cases ?bad)
      case True
      then show ?thesis unfolding eq by simp
    next
      case False
      have len: "int (length (take (nat (e - s + 1)) (drop (nat s) bytes))) = e - s + 1"
        using False s0 by auto
      show ?thesis unfolding eq using False len by (simp del: js_toString.simps)
    qed
  qed
  have full: "stream_file mimeType bytes None =
            \<lparr>status = 200,
             headers =
               [(''Content-Length'', js_toString (Num ?n)),
                (''Content-Type'', mimeType),
                (''Accept-Ranges'', ''bytes''),
                (''Cache-Control'', ''public, max-age=86400'')],
             body = Bytes bytes\<rparr>"
    by (simp add: stream_file_def Let_def del: js_toString.simps)
  show ?thesis
    by (intro conjI general full stream_file_closed_range stream_file_absent_end_empty_file impI
        conjunct1 [OF stream_file_absent_end] conjunct2 [OF stream_file_absent_end])
qed

theorem stream_range_witness:
  "''bytes=900-999'' \<noteq> []
   \<and> range_start ''bytes=900-999'' = Num 900
   \<and> range_end ''bytes=900-999'' (Num (int (length kilobyte_file))) = Num 999
   \<and> stream_file ''audio/mp4'' kilobyte_file (Some ''bytes=900-999'') =
        \<lparr>status = 206,
         headers =
           [(''Content-Range'', ''bytes 900-999/1000''),
            (''Accept-Ranges'', ''bytes''),
            (''Content-Length'', ''100''),
            (''Content-Type'', ''audio/mp4''),
            (''Cache-Control'', ''public, max-age=86400'')],
         body = Bytes (replicate 100 0)\<rparr>
   \<and> stream_file ''audio/mp4'' kilobyte_file (Some ''bytes=0-1023'')
        = \<lparr>status = 416, headers = [], body = ErrorBody ''RANGE_NOT_SATISFIABLE''\<rparr>
   \<and> stream_file ''audio/mp4'' kilobyte_file None =
        \<lparr>status = 200,
         headers =
           [(''Content-Length'', ''1000''),
            (''Content-Type'', ''audio/mp4''),
            (''Accept-Ranges'', ''bytes''),
            (''Cache-Control'', ''public, max-age=86400'')],
         body = Bytes kilobyte_file\<rparr>
   \<and> kilobyte_file \<noteq> []
   \<and> stream_file ''audio/mp4'' kilobyte_file (Some ''bytes=900-'')
        = stream_file ''audio/mp4'' kilobyte_file (Some ''bytes=900-999'')
   \<and> stream_file ''audio/mp4'' kilobyte_file (Some ''bytes=900'')
        = stream_file ''audio/mp4'' kilobyte_file (Some ''bytes=900-999'')"
proof -
  have p: "''bytes=900-999'' \<noteq> []" by simp
  have s: "range_start ''bytes=900-999'' = Num 900" by code_simp
  have e0: "range_end ''bytes=900-999'' (Num 1000) = Num 999" by code_simp
  have e: "range_end ''bytes=900-999'' (Num (int (length kilobyte_file))) = Num 999"
    using e0 by (simp add: kilobyte_length)
  have p2: "''bytes=0-1023'' \<noteq> []" by simp
  have s2: "range_start ''bytes=0-1023'' = Num 0" by code_simp
  have e20: "range_end ''bytes=0-1023'' (Num 1000) = Num 1023" by code_simp
  have e2: "range_end ''bytes=0-1023'' (Num (int (length kilobyte_file))) = Num 1023"
    using e20 by (simp add: kilobyte_length)
  have d1: "js_toString (Num 900) = ''900''" by code_simp
  have d2: "js_toString (Num 999) = ''999''" by code_simp
  have d3: "js_toString (Num 1000) = ''1000''" by code_simp
  have d4: "js_toString (Num 100) = ''100''" by code_simp
  have g1: "digits 900 = ''900''" by code_simp
  have g2: "digits 999 = ''999''" by code_simp
  have ne: "kilobyte_file \<noteq> []" by (simp add: kilobyte_file_def)
  have last: "length kilobyte_file - 1 = 999" by (simp add: kilobyte_file_def)
  have b: "take 100 (drop 900 kilobyte_file) = replicate 100 0"
    by (simp add: kilobyte_file_def)
  note t1 = stream_range_semantics
    [where hdr = "''bytes=900-999''" and s = 900 and e = 999 and bytes = kilobyte_file
       and mimeType = "''audio/mp4''" and a = 900 and b = 999]
  note t2 = stream_range_semantics
    [where hdr = "''bytes=0-1023''" and s = 0 and e = 1023 and bytes = kilobyte_file
       and mimeType = "''audio/mp4''" and a = 0 and b = 0]
  have r206: "stream_file ''audio/mp4'' kilobyte_file (Some ''bytes=900-999'') =
        \<lparr>status = 206,
         headers =
           [(''Content-Range'', ''bytes 900-999/1000''),
            (''Accept-Ranges'', ''bytes''),
            (''Content-Length'', ''100''),
            (''Content-Type'', ''audio/mp4''),
            (''Cache-Control'', ''public, max-age=86400'')],
         body = Bytes (replicate 100 0)\<rparr>"
    using conjunct1 [OF t1] p s e
    by (simp add: kilobyte_length d1 d2 d3 d4 b del: js_toString.simps)
  have r416: "stream_file ''audio/mp4'' kilobyte_file (Some ''bytes=0-1023'')
        = \<lparr>status = 416, headers = [], body = ErrorBody ''RANGE_NOT_SATISFIABLE''\<rparr>"
    using conjunct1 [OF t2] p2 s2 e2
    by (simp add: kilobyte_length del: js_toString.simps)
  have r200: "stream_file ''audio/mp4'' kilobyte_file None =
        \<lparr>status = 200,
         headers =
           [(''Content-Length'', ''1000''),
            (''Content-Type'', ''audio/mp4''),
            (''Accept-Ranges'', ''bytes''),
            (''Cache-Control'', ''public, max-age=86400'')],
         body = Bytes kilobyte_file\<rparr>"
    using conjunct1 [OF conjunct2 [OF t1]]
    by (simp add: kilobyte_length d3 del: js_toString.simps)
  have absent: "kilobyte_file \<noteq> [] \<longrightarrow>
        stream_file ''audio/mp4'' kilobyte_file (Some (''bytes='' @ digits 900 @ ''-''))
          = stream_file ''audio/mp4'' kilobyte_file
              (Some (''bytes='' @ digits 900 @ ''-'' @ digits (length kilobyte_file - 1)))
      \<and> stream_file ''audio/mp4'' kilobyte_file (Some (''bytes='' @ digits 900))
          = stream_file ''audio/mp4'' kilobyte_file
              (Some (''bytes='' @ digits 900 @ ''-'' @ digits (length kilobyte_file - 1)))"
    by (rule conjunct1 [OF conjunct2 [OF conjunct2 [OF conjunct2 [OF t1]]]])
  note absent999 = absent [unfolded last g1 g2]
  have open_end: "stream_file ''audio/mp4'' kilobyte_file (Some ''bytes=900-'')
        = stream_file ''audio/mp4'' kilobyte_file (Some ''bytes=900-999'')"
    using absent999 ne by simp
  have bare: "stream_file ''audio/mp4'' kilobyte_file (Some ''bytes=900'')
        = stream_file ''audio/mp4'' kilobyte_file (Some ''bytes=900-999'')"
    using absent999 ne by simp
  show ?thesis using p s e r206 r416 r200 ne open_end bare by blast
qed

lemma suffix_range_not_rejected:
  assumes "500 < length bytes"
  shows "status (stream_file mimeType bytes (Some ''bytes=-500'')) = 500"
proof -
  have s: "range_start ''bytes=-500'' = NaN" by code_simp
  have e: "range_end ''bytes=-500'' (Num (int (length bytes))) = Num 500"
    by (simp add: range_end_def range_parts_def at_index_def parseInt_def is_space_def
        is_digit_def digit_val_def)
  show ?thesis
    using assms by (simp add: stream_file_def s e range_rejected_def createReadStream_def)
qed

text \<open>
  Claim C10. The suffix form \<open>bytes=-500\<close> is a valid \<open>Range\<close> header that the
  validation of the handler does not reject on a file of 1000 bytes: its parts are the
  empty string and \<open>500\<close>, so \<open>start\<close> is \<open>NaN\<close> and all three comparisons are false.
  No 206 response follows: \<open>end - start + 1\<close> is \<open>NaN\<close>, the read stream refuses
  the start, and the request ends in the handler's 500 response.
\<close>

theorem suffix_range_passes_validation_without_partial_response:
  "range_parts ''bytes=-500'' = [[], ''500'']
   \<and> range_start ''bytes=-500'' = NaN
   \<and> range_end ''bytes=-500'' (Num 1000) = Num 500
   \<and> range_rejected NaN (Num 500) (Num 1000) = False
   \<and> js_add (js_sub (Num 500) NaN) (Num 1) = NaN
   \<and> stream_file ''audio/mp4'' kilobyte_file (Some ''bytes=-500'')
        = \<lparr>status = 500, headers = [], body = ErrorBody ''INTERNAL_ERROR''\<rparr>"
proof -
  have p: "range_parts ''bytes=-500'' = [[], ''500'']" by code_simp
  have s: "range_start ''bytes=-500'' = NaN" by code_simp
  have e: "range_end ''bytes=-500'' (Num 1000) = Num 500" by code_simp
  have r: "range_rejected NaN (Num 500) (Num 1000) = False" by (simp add: range_rejected_def)
  have c: "js_add (js_sub (Num 500) NaN) (Num 1) = NaN" by simp
  have f: "stream_file ''audio/mp4'' kilobyte_file (Some ''bytes=-500'')
        = \<lparr>status = 500, headers = [], body = ErrorBody ''INTERNAL_ERROR''\<rparr>"
    by (simp add: stream_file_def kilobyte_length s e r createReadStream_def)
  show ?thesis using p s e r c f by blast
qed

end
